theory Spec2Isabelle
  imports Complex_Main "HOL-Library.Log_Nat"
begin

section \<open>Numbers and decimal strings\<close>

text \<open>
  \<^verbatim>\<open>server.js\<close> computes with JavaScript numbers, which are IEEE 754 binary64
  values, and stores prices as the strings produced by \<^verbatim>\<open>toFixed(2)\<close>. A number
  is represented by a rational that rounds to it: the rational \<open>r\<close> stands for the
  binary64 value nearest to \<open>r\<close>, as a decimal literal does in the source, and a
  decimal string \<^verbatim>\<open>"175.50"\<close> is represented by the rational it spells. NaN and
  the infinities are not represented.
\<close>

subsection \<open>Rounding to binary64\<close>

text \<open>
  \<open>pow2 k\<close> is \<open>2\<close> to the power \<open>k\<close> and \<open>ilog2 x\<close>, for positive \<open>x\<close>, the
  exponent \<open>k\<close> with \<open>pow2 k \<le> x < pow2 (k + 1)\<close>.
\<close>

definition pow2 :: "int \<Rightarrow> rat" where
  "pow2 k = (if 0 \<le> k then 2 ^ nat k else 1 / 2 ^ nat (- k))"

definition ilog2 :: "rat \<Rightarrow> int" where
  "ilog2 x = (if 1 \<le> x then bitlen \<lfloor>x\<rfloor> - 1 else - bitlen (\<lceil>1 / x\<rceil> - 1))"

text \<open>The nearest integer, the even one of the two on a tie.\<close>

definition round_even :: "rat \<Rightarrow> int" where
  "round_even y =
     (let f = \<lfloor>y\<rfloor>; d = y - of_int f
      in if d < 1 / 2 then f else if 1 / 2 < d then f + 1 else if even f then f else f + 1)"

text \<open>
  The exact value of the binary64 number nearest to \<open>x\<close>: a significand of 53 bits,
  exponents from \<open>-1022\<close> on (below that the spacing stays \<open>pow2 (-1074)\<close>), on a
  tie the value with the even significand. From \<open>pow2 1024\<close> on the machine's result
  is an infinity; such magnitudes are outside the embedding.
\<close>

definition binary64 :: "rat \<Rightarrow> rat" where
  "binary64 x =
     (if x = 0 then 0
      else
        (let e = max (ilog2 \<bar>x\<bar>) (- 1022);
             ulp = pow2 (e - 52)
         in of_int (round_even (x / ulp)) * ulp))"

subsection \<open>Strings of two decimals\<close>

text \<open>
  \<^verbatim>\<open>Number.prototype.toFixed(2)\<close> picks the integer \<open>n\<close> with \<open>n / 100\<close> nearest
  to the magnitude of its argument, the larger one on a tie, and keeps the sign.
\<close>

definition toFixed2 :: "rat \<Rightarrow> rat" where
  "toFixed2 x =
     (if x < 0 then - (of_int \<lfloor>(- x) * 100 + 1 / 2\<rfloor> / 100)
      else of_int \<lfloor>x * 100 + 1 / 2\<rfloor> / 100)"

text \<open>
  \<^verbatim>\<open>parseFloat\<close> of a string that \<^verbatim>\<open>toFixed(2)\<close> wrote is the number nearest
  to the decimal, which the decimal itself stands for.
\<close>

definition parseFloat :: "rat \<Rightarrow> rat" where
  "parseFloat s = s"

text \<open>
  The comparison of the reconciliation on login is carried out in binary64: its
  operands are the binary64 values the rationals stand for, and each operation rounds
  its exact result. The arithmetic of the price walk, at start-up and in the update
  loop, is taken exact, with the literals \<^verbatim>\<open>0.8\<close>, \<^verbatim>\<open>0.05\<close>, \<^verbatim>\<open>0.4\<close>,
  \<^verbatim>\<open>0.2\<close>, \<^verbatim>\<open>0.02\<close> read as \<open>4/5\<close>, \<open>1/20\<close>, \<open>2/5\<close>, \<open>1/5\<close>, \<open>1/50\<close>.
\<close>

text \<open>A value with at most two decimals: a whole number of hundredths.\<close>

definition two_decimals :: "rat \<Rightarrow> bool" where
  "two_decimals p = (of_int \<lfloor>p * 100\<rfloor> = p * 100)"

section \<open>Instrument catalog\<close>

text \<open>
  \<^verbatim>\<open>STOCK_BASE_PRICES\<close> is an object literal; its entries are kept in insertion
  order, which is the order of \<^verbatim>\<open>Object.keys\<close>.
\<close>

definition STOCK_BASE_PRICES :: "(string \<times> rat) list" where
  "STOCK_BASE_PRICES =
     [(''GOOG'', 351 / 2), (''TSLA'', 1711 / 5), (''AMZN'', 2021 / 10),
      (''META'', 595), (''NVDA'', 694 / 5)]"

definition STOCKS :: "string list" where
  "STOCKS = map fst STOCK_BASE_PRICES"

section \<open>Data model\<close>

text \<open>
  A history entry. The seeding loop pushes objects without a \<^verbatim>\<open>code\<close> field, the
  update loop pushes objects with one. \<^verbatim>\<open>timestamp\<close> is the string
  \<^verbatim>\<open>toLocaleTimeString()\<close> renders; the rendering depends on locale and time zone
  and is a parameter \<open>fmt\<close> of the functions below, applied to the epoch
  milliseconds of the \<^verbatim>\<open>Date\<close>.
\<close>

record datapoint =
  code :: "string option"
  price :: rat
  timestamp :: string

text \<open>
  An element of \<^verbatim>\<open>subscriptions\<close> in the user schema: both fields are optional
  in the schema, so a stored element may lack either. The elements of the array are
  subdocuments; the handlers' test that an element is not null always passes and is
  left out.
\<close>

record subscription =
  symbol :: "string option"
  entryPrice :: "rat option"

record user =
  name :: string
  email :: string
  password :: string
  subscriptions :: "subscription list"

text \<open>The events the server sends, with their payloads.\<close>

datatype event =
    AuthError string
  | LoadHistory string "datapoint list"
  | LoginSuccess string string "subscription list" "string list"
  | PriceUpdate datapoint

text \<open>
  The state the handlers and the update loop share. \<open>currentPrices\<close> and
  \<open>stockHistory\<close> are the two module-level objects; the source reads and writes them
  at catalog keys only (inside \<^verbatim>\<open>STOCKS.forEach\<close> or behind
  \<^verbatim>\<open>STOCKS.includes\<close>), so the value of the functions at any other key stands for
  an absent property and is never used. \<open>users\<close> is the User collection keyed by
  its unique email, \<open>userEmail c\<close> is \<^verbatim>\<open>socket.userEmail\<close> of connection \<open>c\<close>,
  \<open>rooms r\<close> lists the connections joined to room \<open>r\<close> in joining order, and
  \<open>outbox\<close> is the sequence of events delivered so far, each with the connection
  it went to.
\<close>

record server =
  currentPrices :: "string \<Rightarrow> rat"
  stockHistory :: "string \<Rightarrow> datapoint list"
  users :: "string \<rightharpoonup> user"
  userEmail :: "nat \<Rightarrow> string option"
  rooms :: "string \<Rightarrow> nat list"
  outbox :: "(nat \<times> event) list"

section \<open>Transport: rooms and emission\<close>

text \<open>
  \<^verbatim>\<open>socket.join\<close> adds the connection to the room's set, \<^verbatim>\<open>socket.leave\<close>
  removes it, \<^verbatim>\<open>socket.emit\<close> delivers to the connection itself and
  \<^verbatim>\<open>io.to(room).emit\<close> delivers to every connection in the room.
\<close>

definition socket_join :: "nat \<Rightarrow> string \<Rightarrow> server \<Rightarrow> server" where
  "socket_join c room st =
     st\<lparr>rooms := (rooms st)(room :=
        (if c \<in> set (rooms st room) then rooms st room else rooms st room @ [c]))\<rparr>"

definition socket_leave :: "nat \<Rightarrow> string \<Rightarrow> server \<Rightarrow> server" where
  "socket_leave c room st =
     st\<lparr>rooms := (rooms st)(room := removeAll c (rooms st room))\<rparr>"

definition socket_emit :: "nat \<Rightarrow> event \<Rightarrow> server \<Rightarrow> server" where
  "socket_emit c ev st = st\<lparr>outbox := outbox st @ [(c, ev)]\<rparr>"

definition io_to_emit :: "string \<Rightarrow> event \<Rightarrow> server \<Rightarrow> server" where
  "io_to_emit room ev st =
     st\<lparr>outbox := outbox st @ map (\<lambda>c. (c, ev)) (rooms st room)\<rparr>"

section \<open>Stock engine\<close>

subsection \<open>Initialisation\<close>

text \<open>
  The warm-up loop \<^verbatim>\<open>for (let i = 100; i > 0; i--)\<close>. \<open>random i\<close> is the value
  \<^verbatim>\<open>Math.random()\<close> returns in the iteration with counter \<open>i\<close> and \<open>now i\<close> the
  value of \<^verbatim>\<open>Date.now()\<close> there.
\<close>

fun seed_loop ::
  "(int \<Rightarrow> string) \<Rightarrow> (nat \<Rightarrow> rat) \<Rightarrow> (nat \<Rightarrow> int) \<Rightarrow> rat \<Rightarrow> nat \<Rightarrow> rat \<Rightarrow> datapoint list
    \<Rightarrow> rat \<times> datapoint list" where
  "seed_loop fmt random now basePrice 0 tempPrice hist = (tempPrice, hist)"
| "seed_loop fmt random now basePrice (Suc n) tempPrice hist =
     (let i = Suc n;
          volatility = (random i - 1 / 2) * (4 / 5);
          pull = (basePrice - tempPrice) * (1 / 20);
          tempPrice' = tempPrice + (volatility + pull)
      in seed_loop fmt random now basePrice n tempPrice'
           (hist @ [\<lparr>code = None, price = toFixed2 tempPrice',
                     timestamp = fmt (now i - int i * 3000)\<rparr>]))"

text \<open>The body of \<^verbatim>\<open>STOCKS.forEach(stock => ...)\<close> at start-up, for one entry.\<close>

definition init_stock ::
  "(int \<Rightarrow> string) \<Rightarrow> (string \<Rightarrow> nat \<Rightarrow> rat) \<Rightarrow> (string \<Rightarrow> nat \<Rightarrow> int) \<Rightarrow> server
    \<Rightarrow> string \<times> rat \<Rightarrow> server" where
  "init_stock fmt random now st entry =
     (case entry of (stock, basePrice) \<Rightarrow>
        (let st1 = st\<lparr>currentPrices := (currentPrices st)(stock := toFixed2 basePrice),
                      stockHistory := (stockHistory st)(stock := [])\<rparr>;
             seeded = seed_loop fmt (random stock) (now stock) basePrice 100 basePrice
                        (stockHistory st1 stock)
         in st1\<lparr>currentPrices := (currentPrices st1)(stock := toFixed2 (fst seeded)),
                stockHistory := (stockHistory st1)(stock := snd seeded)\<rparr>))"

text \<open>
  The server after its module code has run: both objects start empty, no connection
  is bound or joined, nothing has been sent; \<open>db\<close> is the User collection found in
  the database.
\<close>

definition init ::
  "(int \<Rightarrow> string) \<Rightarrow> (string \<Rightarrow> nat \<Rightarrow> rat) \<Rightarrow> (string \<Rightarrow> nat \<Rightarrow> int) \<Rightarrow> (string \<rightharpoonup> user)
    \<Rightarrow> server" where
  "init fmt random now db =
     foldl (init_stock fmt random now)
       \<lparr>currentPrices = (\<lambda>_. 0), stockHistory = (\<lambda>_. []), users = db,
        userEmail = (\<lambda>_. None), rooms = (\<lambda>_. []), outbox = []\<rparr>
       STOCK_BASE_PRICES"

subsection \<open>Update loop\<close>

text \<open>
  The new price of one symbol in one period: \<open>current\<close> is the parsed current
  price, \<open>r\<close> the value of \<^verbatim>\<open>Math.random()\<close>.
\<close>

definition advance :: "rat \<Rightarrow> rat \<Rightarrow> rat \<Rightarrow> rat" where
  "advance base current r =
     (let noise = r * (2 / 5) - 1 / 5;
          pull = (base - current) * (1 / 50);
          newPrice = current + noise + pull;
          newPrice = (if newPrice < 10 then 10 else newPrice)
      in toFixed2 newPrice)"

text \<open>
  The body of \<^verbatim>\<open>STOCKS.forEach(stockCode => ...)\<close> inside \<^verbatim>\<open>setInterval\<close>.
  \<open>random stockCode\<close> and \<open>now stockCode\<close> are the random draw and the clock
  reading of the iteration for \<open>stockCode\<close>.
\<close>

definition tick_stock ::
  "(int \<Rightarrow> string) \<Rightarrow> (string \<Rightarrow> rat) \<Rightarrow> (string \<Rightarrow> int) \<Rightarrow> server \<Rightarrow> string \<times> rat
    \<Rightarrow> server" where
  "tick_stock fmt random now st entry =
     (case entry of (stockCode, base) \<Rightarrow>
        (let current = parseFloat (currentPrices st stockCode);
             st1 = st\<lparr>currentPrices :=
                      (currentPrices st)(stockCode := advance base current (random stockCode))\<rparr>;
             dataPoint = \<lparr>code = Some stockCode, price = currentPrices st1 stockCode,
                          timestamp = fmt (now stockCode)\<rparr>;
             pushed = stockHistory st1 stockCode @ [dataPoint];
             st2 = st1\<lparr>stockHistory := (stockHistory st1)(stockCode :=
                      (if length pushed > 100 then tl pushed else pushed))\<rparr>
         in io_to_emit stockCode (PriceUpdate dataPoint) st2))"

definition tick ::
  "(int \<Rightarrow> string) \<Rightarrow> (string \<Rightarrow> rat) \<Rightarrow> (string \<Rightarrow> int) \<Rightarrow> server \<Rightarrow> server" where
  "tick fmt random now st = foldl (tick_stock fmt random now) st STOCK_BASE_PRICES"

text \<open>
  \<open>n\<close> periods of the timer, one after the other: \<open>random k\<close> and \<open>now k\<close> are
  the draws and clock readings of period \<open>k\<close>.
\<close>

fun run_ticks ::
  "(int \<Rightarrow> string) \<Rightarrow> (nat \<Rightarrow> string \<Rightarrow> rat) \<Rightarrow> (nat \<Rightarrow> string \<Rightarrow> int) \<Rightarrow> nat \<Rightarrow> server
    \<Rightarrow> server" where
  "run_ticks fmt random now 0 st = st"
| "run_ticks fmt random now (Suc n) st =
     tick fmt (random n) (now n) (run_ticks fmt random now n st)"

section \<open>User collection\<close>

text \<open>
  \<^verbatim>\<open>User.updateOne({ email }, update)\<close> with the two updates the handlers use.
  The call rejects when the database cannot be reached: \<open>ok\<close> says whether it can.
  With no matching document nothing is changed.
\<close>

datatype error = DbError

definition pull_subscription :: "string \<Rightarrow> string \<Rightarrow> (string \<rightharpoonup> user) \<Rightarrow> (string \<rightharpoonup> user)" where
  "pull_subscription em symb db =
     (case db em of
        None \<Rightarrow> db
      | Some u \<Rightarrow>
          db(em \<mapsto> u\<lparr>subscriptions := filter (\<lambda>s. symbol s \<noteq> Some symb) (subscriptions u)\<rparr>))"

definition push_subscription ::
  "string \<Rightarrow> subscription \<Rightarrow> (string \<rightharpoonup> user) \<Rightarrow> (string \<rightharpoonup> user)" where
  "push_subscription em sub db =
     (case db em of
        None \<Rightarrow> db
      | Some u \<Rightarrow> db(em \<mapsto> u\<lparr>subscriptions := subscriptions u @ [sub]\<rparr>))"

definition updateOne ::
  "bool \<Rightarrow> ((string \<rightharpoonup> user) \<Rightarrow> (string \<rightharpoonup> user)) \<Rightarrow> (string \<rightharpoonup> user)
    \<Rightarrow> error + (string \<rightharpoonup> user)" where
  "updateOne ok upd db = (if ok then Inr (upd db) else Inl DbError)"

definition findOne :: "bool \<Rightarrow> string \<Rightarrow> (string \<rightharpoonup> user) \<Rightarrow> error + user option" where
  "findOne ok em db = (if ok then Inr (db em) else Inl DbError)"

section \<open>Socket handlers\<close>

text \<open>
  The login and unsubscribe handlers are run to their end before the next event is
  taken; the subscribe handler is embedded \<^verbatim>\<open>await\<close> by \<^verbatim>\<open>await\<close>.
  \<open>c\<close> is the connection the handler belongs to. A JavaScript string is truthy
  when it is not empty. The handlers for \<^verbatim>\<open>register\<close>, \<^verbatim>\<open>unsubscribeAll\<close>,
  \<^verbatim>\<open>joinFeed\<close> and \<^verbatim>\<open>disconnect\<close> take no part in the properties below and
  are not embedded.
\<close>

definition truthy :: "string option \<Rightarrow> bool" where
  "truthy v = (case v of None \<Rightarrow> False | Some s \<Rightarrow> s \<noteq> [])"

subsection \<open>Login\<close>

text \<open>
  The entry price a cleaned subscription gets. \<^verbatim>\<open>!entryP\<close> holds for a missing
  value and for zero. The test on line 160 is computed on the binary64 values of
  \<open>entryP\<close> and \<open>currentP\<close>: the difference and the product are rounded to
  binary64, the literal \<^verbatim>\<open>0.2\<close> is the binary64 value nearest to \<open>1/5\<close>, and
  \<^verbatim>\<open>Math.abs\<close> and the comparison are exact.
\<close>

definition reconcile :: "rat \<Rightarrow> rat option \<Rightarrow> rat" where
  "reconcile currentP entryP =
     (case entryP of
        None \<Rightarrow> currentP
      | Some e \<Rightarrow>
          if binary64 e = 0 \<or>
             \<bar>binary64 (binary64 e - binary64 currentP)\<bar>
               > binary64 (binary64 currentP * binary64 (1 / 5))
          then currentP else e)"

text \<open>\<^verbatim>\<open>user.subscriptions.forEach\<close>, pushing onto \<^verbatim>\<open>cleanSubs\<close>.\<close>

fun cleanSubs_loop ::
  "(string \<Rightarrow> rat) \<Rightarrow> subscription list \<Rightarrow> subscription list \<Rightarrow> subscription list" where
  "cleanSubs_loop prices [] cleanSubs = cleanSubs"
| "cleanSubs_loop prices (sub # rest) cleanSubs =
     (case symbol sub of
        None \<Rightarrow> cleanSubs_loop prices rest cleanSubs
      | Some symb \<Rightarrow>
          if symb \<noteq> [] \<and> symb \<in> set STOCKS then
            (let currentP = parseFloat (prices symb);
                 entryP = reconcile currentP (entryPrice sub)
             in cleanSubs_loop prices rest
                  (cleanSubs @ [\<lparr>symbol = Some symb, entryPrice = Some entryP\<rparr>]))
          else cleanSubs_loop prices rest cleanSubs)"

definition cleanSubs :: "(string \<Rightarrow> rat) \<Rightarrow> subscription list \<Rightarrow> subscription list" where
  "cleanSubs prices subs = cleanSubs_loop prices subs []"

text \<open>\<^verbatim>\<open>cleanSubs.forEach\<close>: join the room and send its history.\<close>

fun restore_rooms :: "nat \<Rightarrow> subscription list \<Rightarrow> server \<Rightarrow> server" where
  "restore_rooms c [] st = st"
| "restore_rooms c (sub # rest) st =
     (case symbol sub of
        None \<Rightarrow> restore_rooms c rest st
      | Some symb \<Rightarrow>
          (let st1 = socket_join c symb st
           in restore_rooms c rest
                (socket_emit c (LoadHistory symb (stockHistory st1 symb)) st1)))"

text \<open>
  The login handler. \<open>db_ok\<close> says whether \<^verbatim>\<open>User.findOne\<close> resolves and
  \<open>compare\<close> is \<^verbatim>\<open>bcrypt.compare\<close>; a rejection lands in the handler's
  \<^verbatim>\<open>catch\<close>.
\<close>

definition login ::
  "bool \<Rightarrow> (string \<Rightarrow> string \<Rightarrow> bool) \<Rightarrow> nat \<Rightarrow> string \<Rightarrow> string \<Rightarrow> server \<Rightarrow> server" where
  "login db_ok compare c em pw st =
     (case findOne db_ok em (users st) of
        Inl err \<Rightarrow> socket_emit c (AuthError ''Login failed.'') st
      | Inr None \<Rightarrow> socket_emit c (AuthError ''User not found.'') st
      | Inr (Some u) \<Rightarrow>
          if \<not> compare pw (password u) then socket_emit c (AuthError ''Invalid password.'') st
          else
            (let st1 = st\<lparr>userEmail := (userEmail st)(c := Some (email u))\<rparr>;
                 clean = cleanSubs (currentPrices st1) (subscriptions u);
                 st2 = restore_rooms c clean st1
             in socket_emit c (LoginSuccess (name u) (email u) clean STOCKS) st2))"

subsection \<open>Subscribe and unsubscribe\<close>

text \<open>
  The subscribe handler gives up control at each of its two \<^verbatim>\<open>await\<close>s, and
  other events are handled before it goes on. What it waits for and what it needs to go
  on is an \<open>await\<close>: the connection, the email of the update sent, the symbol and the
  price captured at the start.
\<close>

datatype await =
    AwaitPull nat string string rat
  | AwaitPush nat string string rat

text \<open>
  From the arrival of the event to the first \<^verbatim>\<open>await\<close>: the two guards, the
  join, the price, and the \<^verbatim>\<open>$pull\<close> sent for \<^verbatim>\<open>socket.userEmail\<close>.
\<close>

definition subscribe_start :: "nat \<Rightarrow> string \<Rightarrow> server \<Rightarrow> server \<times> await option" where
  "subscribe_start c stockCode st =
     (if \<not> truthy (userEmail st c) then
        (socket_emit c (AuthError ''Session expired. Relogin.'') st, None)
      else if stockCode \<notin> set STOCKS then (st, None)
      else
        (let em = (case userEmail st c of Some e \<Rightarrow> e | None \<Rightarrow> []);
             st1 = socket_join c stockCode st;
             priceNow = parseFloat (currentPrices st1 stockCode)
         in (st1, Some (AwaitPull c em stockCode priceNow))))"

text \<open>
  An awaited \<^verbatim>\<open>updateOne\<close> settles, \<open>ok\<close> saying whether it resolves, and the
  handler runs on to its next \<^verbatim>\<open>await\<close> or to its end. After the \<^verbatim>\<open>$pull\<close>
  the \<^verbatim>\<open>$push\<close> is sent, for \<^verbatim>\<open>socket.userEmail\<close> as it is then; a rejection
  is caught and logged, and the handler ends, as it does after the \<^verbatim>\<open>$push\<close>, by
  sending the history.
\<close>

fun resume :: "bool \<Rightarrow> await \<Rightarrow> server \<Rightarrow> server \<times> await option" where
  "resume ok (AwaitPull c em stockCode priceNow) st =
     (case updateOne ok (pull_subscription em stockCode) (users st) of
        Inl err \<Rightarrow> (socket_emit c (LoadHistory stockCode (stockHistory st stockCode)) st, None)
      | Inr db1 \<Rightarrow>
          (let st1 = st\<lparr>users := db1\<rparr>;
               em2 = (case userEmail st1 c of Some e \<Rightarrow> e | None \<Rightarrow> [])
           in (st1, Some (AwaitPush c em2 stockCode priceNow))))"
| "resume ok (AwaitPush c em stockCode priceNow) st =
     (let st1 = (case updateOne ok
                        (push_subscription em
                           \<lparr>symbol = Some stockCode, entryPrice = Some priceNow\<rparr>) (users st) of
                   Inl err \<Rightarrow> st
                 | Inr db2 \<Rightarrow> st\<lparr>users := db2\<rparr>)
      in (socket_emit c (LoadHistory stockCode (stockHistory st1 stockCode)) st1, None))"

text \<open>
  A subscribe event handled from start to end with no other event in between.
  \<open>ok1\<close> and \<open>ok2\<close> say whether the first and the second \<^verbatim>\<open>updateOne\<close>
  resolve.
\<close>

definition subscribe :: "bool \<Rightarrow> bool \<Rightarrow> nat \<Rightarrow> string \<Rightarrow> server \<Rightarrow> server" where
  "subscribe ok1 ok2 c stockCode st =
     (case subscribe_start c stockCode st of
        (st1, None) \<Rightarrow> st1
      | (st1, Some a1) \<Rightarrow>
          (case resume ok1 a1 st1 of
             (st2, None) \<Rightarrow> st2
           | (st2, Some a2) \<Rightarrow> fst (resume ok2 a2 st2)))"




text \<open>The unsubscribe handler; \<open>ok\<close> says whether its \<^verbatim>\<open>updateOne\<close> resolves.\<close>

definition unsubscribe :: "bool \<Rightarrow> nat \<Rightarrow> string \<Rightarrow> server \<Rightarrow> server" where
  "unsubscribe ok c stockCode st =
     (if \<not> truthy (userEmail st c) then st
      else
        (let em = (case userEmail st c of Some e \<Rightarrow> e | None \<Rightarrow> []);
             st1 = socket_leave c stockCode st
         in (case updateOne ok (pull_subscription em stockCode) (users st1) of
               Inl err \<Rightarrow> st1
             | Inr db1 \<Rightarrow> st1\<lparr>users := db1\<rparr>)))"

section \<open>Notions used to state the properties\<close>

text \<open>
  The reconciliation rule in the words of the specification: a stored entry price is
  replaced when it is missing, zero, or differs from the live price by more than 20% of
  the live price.
\<close>

definition stale :: "rat \<Rightarrow> rat option \<Rightarrow> bool" where
  "stale live stored =
     (case stored of
        None \<Rightarrow> True
      | Some e \<Rightarrow> e = 0 \<or> \<bar>e - live\<bar> > (20 / 100) * live)"

text \<open>
  The rule as the code applies it: the stored and the live price are taken as binary64
  values, and their difference and 20% of the live price are each rounded to binary64
  before they are compared.
\<close>

definition stale_binary64 :: "rat \<Rightarrow> rat option \<Rightarrow> bool" where
  "stale_binary64 live stored =
     (case stored of
        None \<Rightarrow> True
      | Some e \<Rightarrow>
          binary64 e = 0 \<or>
          \<bar>binary64 (binary64 e - binary64 live)\<bar>
            > binary64 (binary64 live * binary64 (20 / 100)))"


text \<open>The events delivered to a connection.\<close>

definition delivered_to :: "nat \<Rightarrow> server \<Rightarrow> (nat \<times> event) list" where
  "delivered_to c st = filter (\<lambda>e. fst e = c) (outbox st)"

text \<open>The \<^verbatim>\<open>priceUpdate\<close> events among the deliveries, with their receivers.\<close>

fun is_priceUpdate :: "event \<Rightarrow> bool" where
  "is_priceUpdate (PriceUpdate d) = True"
| "is_priceUpdate _ = False"

definition priceUpdates :: "server \<Rightarrow> (nat \<times> event) list" where
  "priceUpdates st = filter (\<lambda>e. is_priceUpdate (snd e)) (outbox st)"

section \<open>Example inputs\<close>

text \<open>
  Concrete inputs on which the theorems below are instantiated: a rendering of the
  time of day (24-hour, UTC), a random source that always returns \<open>1/2\<close>, a clock
  that stands still, a User collection with one account, a server in which
  connection \<open>7\<close> is logged in and is the only member of the only non-empty room, a
  server with three rooms of two, one and one members, two subscribe events whose
  handlers overlap, and two price tables.
\<close>

definition two_digits :: "nat \<Rightarrow> string" where
  "two_digits n = [char_of (48 + n div 10), char_of (48 + n mod 10)]"

definition utc_time :: "int \<Rightarrow> string" where
  "utc_time ms =
     (let s = nat ((ms div 1000) mod 86400)
      in two_digits (s div 3600) @ '':'' @ two_digits (s div 60 mod 60) @ '':'' @
         two_digits (s mod 60))"

definition half :: "string \<Rightarrow> rat" where
  "half s = 1 / 2"

definition noon :: "string \<Rightarrow> int" where
  "noon s = 43200000"

definition seed_half :: "string \<Rightarrow> nat \<Rightarrow> rat" where
  "seed_half s i = 1 / 2"

definition seed_noon :: "string \<Rightarrow> nat \<Rightarrow> int" where
  "seed_noon s i = 43200000"

definition every_half :: "nat \<Rightarrow> string \<Rightarrow> rat" where
  "every_half k = half"

definition every_noon :: "nat \<Rightarrow> string \<Rightarrow> int" where
  "every_noon k = noon"

definition accept :: "string \<Rightarrow> string \<Rightarrow> bool" where
  "accept pw hash = True"

definition flat :: "string \<Rightarrow> rat" where
  "flat s = 100"

definition stored :: "subscription list" where
  "stored =
     [\<lparr>symbol = Some ''GOOG'', entryPrice = Some 0\<rparr>,
      \<lparr>symbol = Some ''TSLA'', entryPrice = Some 110\<rparr>,
      \<lparr>symbol = Some ''DOGE'', entryPrice = Some 100\<rparr>,
      \<lparr>symbol = Some ''AMZN'', entryPrice = Some 121\<rparr>,
      \<lparr>symbol = None, entryPrice = Some 100\<rparr>,
      \<lparr>symbol = Some ''META'', entryPrice = None\<rparr>,
      \<lparr>symbol = Some ''NVDA'', entryPrice = Some 80\<rparr>]"

definition ann :: user where
  "ann = \<lparr>name = ''Ann'', email = ''ann@example.org'', password = ''hash'',
          subscriptions =
            [\<lparr>symbol = Some ''GOOG'', entryPrice = Some 1\<rparr>,
             \<lparr>symbol = Some ''DOGE'', entryPrice = Some 5\<rparr>]\<rparr>"

definition one_account :: "string \<rightharpoonup> user" where
  "one_account = [''ann@example.org'' \<mapsto> ann]"

definition one_member :: server where
  "one_member =
     \<lparr>currentPrices = (\<lambda>_. 100), stockHistory = (\<lambda>_. []), users = one_account,
      userEmail = (\<lambda>_. None)(7 := Some ''ann@example.org''),
      rooms = (\<lambda>_. [])(''GOOG'' := [7]), outbox = []\<rparr>"

definition three_rooms :: server where
  "three_rooms =
     \<lparr>currentPrices = (\<lambda>_. 100), stockHistory = (\<lambda>_. []), users = one_account,
      userEmail = (\<lambda>_. None),
      rooms = (\<lambda>_. [])(''GOOG'' := [7, 8], ''TSLA'' := [8], ''NVDA'' := [9]), outbox = []\<rparr>"


definition at_177 :: "string \<Rightarrow> rat" where
  "at_177 s = 177"

definition at_192_15 :: "string \<Rightarrow> rat" where
  "at_192_15 s = 3843 / 20"

definition anonymous :: server where
  "anonymous =
     \<lparr>currentPrices = (\<lambda>_. 100), stockHistory = (\<lambda>_. []), users = one_account,
      userEmail = (\<lambda>_. None), rooms = (\<lambda>_. []), outbox = []\<rparr>"

section \<open>Properties of the number model\<close>

lemma two_decimals_toFixed2: "two_decimals (toFixed2 x)"
  by (simp add: two_decimals_def toFixed2_def)

lemma toFixed2_ge_10:
  assumes "10 \<le> x"
  shows "10 \<le> toFixed2 x"
proof -
  have "(1000 :: int) \<le> \<lfloor>x * 100 + 1 / 2\<rfloor>"
    using assms by (simp add: le_floor_iff)
  then have "(1000 :: rat) \<le> of_int \<lfloor>x * 100 + 1 / 2\<rfloor>"
    by (metis of_int_le_iff of_int_numeral)
  then show ?thesis
    using assms by (simp add: toFixed2_def)
qed

section \<open>The catalog\<close>

lemma distinct_STOCK_BASE_PRICES: "distinct (map fst STOCK_BASE_PRICES)"
  by (simp add: STOCK_BASE_PRICES_def)

lemma STOCKS_entry:
  assumes "s \<in> set STOCKS"
  obtains b where "(s, b) \<in> set STOCK_BASE_PRICES"
  using assms unfolding STOCKS_def by auto

lemma GOOG_in_STOCKS: "''GOOG'' \<in> set STOCKS"
  by (simp add: STOCKS_def STOCK_BASE_PRICES_def)

section \<open>The update loop\<close>

lemma advance_floor: "10 \<le> advance base current r"
  by (simp add: advance_def Let_def toFixed2_ge_10)

lemma advance_two_decimals: "two_decimals (advance base current r)"
  by (simp add: advance_def Let_def two_decimals_toFixed2)

lemma tick_stock_currentPrices:
  "currentPrices (tick_stock fmt random now st (s, b)) =
     (currentPrices st)(s := advance b (currentPrices st s) (random s))"
  by (simp add: tick_stock_def io_to_emit_def parseFloat_def Let_def)

lemma tick_stock_stockHistory:
  "stockHistory (tick_stock fmt random now st (s, b)) =
     (stockHistory st)(s :=
        (if length (stockHistory st s) \<ge> 100
         then tl (stockHistory st s @
                [\<lparr>code = Some s, price = advance b (currentPrices st s) (random s),
                  timestamp = fmt (now s)\<rparr>])
         else stockHistory st s @
                [\<lparr>code = Some s, price = advance b (currentPrices st s) (random s),
                  timestamp = fmt (now s)\<rparr>]))"
  by (simp add: tick_stock_def io_to_emit_def parseFloat_def Let_def)

lemma tick_stock_rooms: "rooms (tick_stock fmt random now st e) = rooms st"
  by (cases e) (simp add: tick_stock_def io_to_emit_def Let_def)



lemma tick_stock_outbox:
  "outbox (tick_stock fmt random now st (s, b)) =
     outbox st @
       map (\<lambda>c. (c, PriceUpdate \<lparr>code = Some s, price = advance b (currentPrices st s) (random s),
                                timestamp = fmt (now s)\<rparr>)) (rooms st s)"
  by (simp add: tick_stock_def io_to_emit_def parseFloat_def Let_def)

lemma foldl_tick_rooms: "rooms (foldl (tick_stock fmt random now) st xs) = rooms st"
  by (induction xs arbitrary: st) (simp_all add: tick_stock_rooms)



lemma foldl_tick_currentPrices_other:
  "s \<notin> fst ` set xs \<Longrightarrow>
     currentPrices (foldl (tick_stock fmt random now) st xs) s = currentPrices st s"
proof (induction xs arbitrary: st)
  case Nil
  show ?case by simp
next
  case (Cons x xs)
  obtain s' b' where x: "x = (s', b')" by (cases x)
  from Cons.prems x have "s \<noteq> s'" and "s \<notin> fst ` set xs" by auto
  with Cons.IH [of "tick_stock fmt random now st x"] x show ?case
    by (simp add: tick_stock_currentPrices)
qed

lemma foldl_tick_stockHistory_other:
  "s \<notin> fst ` set xs \<Longrightarrow>
     stockHistory (foldl (tick_stock fmt random now) st xs) s = stockHistory st s"
proof (induction xs arbitrary: st)
  case Nil
  show ?case by simp
next
  case (Cons x xs)
  obtain s' b' where x: "x = (s', b')" by (cases x)
  from Cons.prems x have "s \<noteq> s'" and "s \<notin> fst ` set xs" by auto
  with Cons.IH [of "tick_stock fmt random now st x"] x show ?case
    by (simp add: tick_stock_stockHistory)
qed

lemma foldl_tick_currentPrices:
  "distinct (map fst xs) \<Longrightarrow> (s, b) \<in> set xs \<Longrightarrow>
     currentPrices (foldl (tick_stock fmt random now) st xs) s =
       advance b (currentPrices st s) (random s)"
proof (induction xs arbitrary: st)
  case Nil
  then show ?case by simp
next
  case (Cons x xs)
  obtain s' b' where x: "x = (s', b')" by (cases x)
  show ?case
  proof (cases "x = (s, b)")
    case True
    with Cons.prems have "s \<notin> fst ` set xs" by auto
    with True show ?thesis
      by (simp add: foldl_tick_currentPrices_other tick_stock_currentPrices)
  next
    case False
    with Cons.prems have in_xs: "(s, b) \<in> set xs" and d: "distinct (map fst xs)" by auto
    from in_xs have "s \<in> fst ` set xs" by force
    with Cons.prems x have "s \<noteq> s'" by auto
    with Cons.IH [OF d in_xs, of "tick_stock fmt random now st x"] x show ?thesis
      by (simp add: tick_stock_currentPrices)
  qed
qed

lemma foldl_tick_stockHistory:
  "distinct (map fst xs) \<Longrightarrow> (s, b) \<in> set xs \<Longrightarrow>
     stockHistory (foldl (tick_stock fmt random now) st xs) s =
       stockHistory (tick_stock fmt random now st (s, b)) s"
proof (induction xs arbitrary: st)
  case Nil
  then show ?case by simp
next
  case (Cons x xs)
  obtain s' b' where x: "x = (s', b')" by (cases x)
  show ?case
  proof (cases "x = (s, b)")
    case True
    with Cons.prems have "s \<notin> fst ` set xs" by auto
    with True show ?thesis
      by (simp add: foldl_tick_stockHistory_other)
  next
    case False
    with Cons.prems have in_xs: "(s, b) \<in> set xs" and d: "distinct (map fst xs)" by auto
    from in_xs have "s \<in> fst ` set xs" by force
    with Cons.prems x have "s \<noteq> s'" by auto
    with Cons.IH [OF d in_xs, of "tick_stock fmt random now st x"] x show ?thesis
      by (simp add: tick_stock_stockHistory tick_stock_currentPrices)
  qed
qed

lemma foldl_tick_outbox:
  "distinct (map fst xs) \<Longrightarrow>
     outbox (foldl (tick_stock fmt random now) st xs) =
       outbox st @
         concat (map (\<lambda>(s, b). map (\<lambda>c. (c, PriceUpdate
                   \<lparr>code = Some s, price = advance b (currentPrices st s) (random s),
                    timestamp = fmt (now s)\<rparr>)) (rooms st s)) xs)"
proof (induction xs arbitrary: st)
  case Nil
  show ?case by simp
next
  case (Cons x xs)
  obtain s' b' where x: "x = (s', b')" by (cases x)
  from Cons.prems x have d: "distinct (map fst xs)" and notin: "s' \<notin> fst ` set xs" by auto
  have same: "\<And>s b. (s, b) \<in> set xs \<Longrightarrow>
      currentPrices (tick_stock fmt random now st x) s = currentPrices st s"
  proof -
    fix s b assume "(s, b) \<in> set xs"
    then have "s \<in> fst ` set xs" by force
    with notin have "s \<noteq> s'" by auto
    then show "currentPrices (tick_stock fmt random now st x) s = currentPrices st s"
      using x by (simp add: tick_stock_currentPrices)
  qed
  have "concat (map (\<lambda>(s, b). map (\<lambda>c. (c, PriceUpdate
                   \<lparr>code = Some s,
                    price = advance b (currentPrices (tick_stock fmt random now st x) s) (random s),
                    timestamp = fmt (now s)\<rparr>)) (rooms (tick_stock fmt random now st x) s)) xs) =
        concat (map (\<lambda>(s, b). map (\<lambda>c. (c, PriceUpdate
                   \<lparr>code = Some s, price = advance b (currentPrices st s) (random s),
                    timestamp = fmt (now s)\<rparr>)) (rooms st s)) xs)"
    by (rule arg_cong [where f = concat], rule map_cong) (auto simp: same tick_stock_rooms)
  with Cons.IH [OF d, of "tick_stock fmt random now st x"] x show ?case
    by (simp add: tick_stock_outbox)
qed

lemma tick_currentPrices:
  "(s, b) \<in> set STOCK_BASE_PRICES \<Longrightarrow>
     currentPrices (tick fmt random now st) s = advance b (currentPrices st s) (random s)"
  unfolding tick_def by (rule foldl_tick_currentPrices [OF distinct_STOCK_BASE_PRICES])

text \<open>
  C2. Whatever the current price, the draw of the random source and the pull are, the
  price the update loop stores for a catalog symbol is at least 10.00 and has two
  decimals; the same holds of the advance step on any base price.
\<close>

theorem C2_advance_floor:
  "stockCode \<in> set STOCKS \<Longrightarrow>
     10 \<le> currentPrices (tick fmt random now st) stockCode \<and>
     two_decimals (currentPrices (tick fmt random now st) stockCode) \<and>
     10 \<le> advance base current r \<and> two_decimals (advance base current r)"
  by (elim STOCKS_entry) (simp add: tick_currentPrices advance_floor advance_two_decimals)

theorem C2_advance_floor_witness:
  "''GOOG'' \<in> set STOCKS \<and>
   10 \<le> currentPrices (tick utc_time half noon one_member) ''GOOG'' \<and>
   two_decimals (currentPrices (tick utc_time half noon one_member) ''GOOG'') \<and>
   advance (351 / 2) 10 0 = 1311 / 100"
proof -
  have "advance (351 / 2) 10 0 = 1311 / 100"
    by code_simp
  with C2_advance_floor [OF GOOG_in_STOCKS, of utc_time half noon one_member "351 / 2" 10 0]
  show ?thesis
    by (simp add: GOOG_in_STOCKS)
qed

section \<open>The warm-up at start-up\<close>

lemma seed_loop_append:
  "seed_loop fmt random now base n t h =
     (fst (seed_loop fmt random now base n t []), h @ snd (seed_loop fmt random now base n t []))"
proof (induction n arbitrary: t h)
  case 0
  show ?case by simp
next
  case (Suc n)
  let ?t = "t + ((random (Suc n) - 1 / 2) * (4 / 5) + (base - t) * (1 / 20))"
  let ?d = "\<lparr>code = None, price = toFixed2 ?t,
             timestamp = fmt (now (Suc n) - int (Suc n) * 3000)\<rparr>"
  have "seed_loop fmt random now base (Suc n) t h = seed_loop fmt random now base n ?t (h @ [?d])"
    by (simp add: Let_def)
  also have "\<dots> = (fst (seed_loop fmt random now base n ?t []),
                   (h @ [?d]) @ snd (seed_loop fmt random now base n ?t []))"
    by (rule Suc.IH)
  finally have left: "seed_loop fmt random now base (Suc n) t h =
      (fst (seed_loop fmt random now base n ?t []),
       h @ ?d # snd (seed_loop fmt random now base n ?t []))"
    by simp
  have "seed_loop fmt random now base (Suc n) t [] = seed_loop fmt random now base n ?t [?d]"
    by (simp add: Let_def)
  also have "\<dots> = (fst (seed_loop fmt random now base n ?t []),
                   [?d] @ snd (seed_loop fmt random now base n ?t []))"
    by (rule Suc.IH)
  finally have right: "seed_loop fmt random now base (Suc n) t [] =
      (fst (seed_loop fmt random now base n ?t []),
       ?d # snd (seed_loop fmt random now base n ?t []))"
    by simp
  show ?case
    by (simp only: left right fst_conv snd_conv)
qed

lemma seed_loop_Suc:
  "snd (seed_loop fmt random now base (Suc n) t []) =
     \<lparr>code = None,
      price = toFixed2 (t + ((random (Suc n) - 1 / 2) * (4 / 5) + (base - t) * (1 / 20))),
      timestamp = fmt (now (Suc n) - int (Suc n) * 3000)\<rparr> #
     snd (seed_loop fmt random now base n
            (t + ((random (Suc n) - 1 / 2) * (4 / 5) + (base - t) * (1 / 20))) [])"
proof -
  let ?t = "t + ((random (Suc n) - 1 / 2) * (4 / 5) + (base - t) * (1 / 20))"
  let ?d = "\<lparr>code = None, price = toFixed2 ?t,
             timestamp = fmt (now (Suc n) - int (Suc n) * 3000)\<rparr>"
  have "seed_loop fmt random now base (Suc n) t [] = seed_loop fmt random now base n ?t [?d]"
    by (simp add: Let_def)
  then show ?thesis
    by (simp only: seed_loop_append [of fmt random now base n ?t "[?d]"] snd_conv append.simps)
qed

lemma seed_loop_length: "length (snd (seed_loop fmt random now base n t [])) = n"
  by (induction n arbitrary: t) (simp_all add: seed_loop_Suc del: seed_loop.simps(2))

lemma seed_loop_nth:
  "k < n \<Longrightarrow>
     two_decimals (price (snd (seed_loop fmt random now base n t []) ! k)) \<and>
     code (snd (seed_loop fmt random now base n t []) ! k) = None \<and>
     timestamp (snd (seed_loop fmt random now base n t []) ! k) =
       fmt (now (n - k) - int (n - k) * 3000)"
proof (induction n arbitrary: t k)
  case 0
  then show ?case by simp
next
  case (Suc n)
  show ?case
  proof (cases k)
    case 0
    then show ?thesis
      by (simp add: seed_loop_Suc two_decimals_toFixed2 del: seed_loop.simps(2))
  next
    case (Suc j)
    with Suc.prems have "j < n" by simp
    from Suc.IH [OF this] Suc show ?thesis
      by (simp add: seed_loop_Suc del: seed_loop.simps(2))
  qed
qed

lemma seed_step_lower:
  fixes r d :: rat
  shows "0 \<le> r \<Longrightarrow> r < 1 \<Longrightarrow> - 8 \<le> d \<Longrightarrow> d \<le> 8 \<Longrightarrow>
    - 8 \<le> d * (19 / 20) + (r - 1 / 2) * (4 / 5)"
  by (simp add: field_simps)

lemma seed_step_upper:
  fixes r d :: rat
  shows "0 \<le> r \<Longrightarrow> r < 1 \<Longrightarrow> - 8 \<le> d \<Longrightarrow> d \<le> 8 \<Longrightarrow>
    d * (19 / 20) + (r - 1 / 2) * (4 / 5) \<le> 8"
  by (simp add: field_simps)

lemma seed_loop_bound:
  assumes draws: "\<forall>i. 0 \<le> random i \<and> random i < 1"
  shows "\<bar>t - base\<bar> \<le> 8 \<Longrightarrow> \<bar>fst (seed_loop fmt random now base n t h) - base\<bar> \<le> 8"
proof (induction n arbitrary: t h)
  case 0
  then show ?case by simp
next
  case (Suc n)
  let ?r = "random (Suc n)"
  let ?t = "t + ((?r - 1 / 2) * (4 / 5) + (base - t) * (1 / 20))"
  from draws have r: "0 \<le> ?r" "?r < 1" by simp_all
  from Suc.prems have d: "- 8 \<le> t - base" "t - base \<le> 8" by (simp_all add: abs_le_iff)
  have eq: "?t - base = (t - base) * (19 / 20) + (?r - 1 / 2) * (4 / 5)"
    by (simp add: field_simps)
  have lo: "- 8 \<le> ?t - base"
    unfolding eq by (rule seed_step_lower [OF r d])
  have hi: "?t - base \<le> 8"
    unfolding eq by (rule seed_step_upper [OF r d])
  from lo hi have "\<bar>?t - base\<bar> \<le> 8" by (simp only: abs_le_iff) simp
  from Suc.IH [OF this] show ?case by (simp add: Let_def)
qed

lemma init_stock_currentPrices:
  "currentPrices (init_stock fmt random now st (s, b)) =
     (currentPrices st)(s := toFixed2 (fst (seed_loop fmt (random s) (now s) b 100 b [])))"
  by (simp add: init_stock_def Let_def)

lemma init_stock_stockHistory:
  "stockHistory (init_stock fmt random now st (s, b)) =
     (stockHistory st)(s := snd (seed_loop fmt (random s) (now s) b 100 b []))"
  by (simp add: init_stock_def Let_def)

lemma foldl_init_currentPrices_other:
  "s \<notin> fst ` set xs \<Longrightarrow>
     currentPrices (foldl (init_stock fmt random now) st xs) s = currentPrices st s"
proof (induction xs arbitrary: st)
  case Nil
  show ?case by simp
next
  case (Cons x xs)
  obtain s' b' where x: "x = (s', b')" by (cases x)
  from Cons.prems x have "s \<noteq> s'" and "s \<notin> fst ` set xs" by auto
  with Cons.IH [of "init_stock fmt random now st x"] x show ?case
    by (simp add: init_stock_currentPrices)
qed

lemma foldl_init_stockHistory_other:
  "s \<notin> fst ` set xs \<Longrightarrow>
     stockHistory (foldl (init_stock fmt random now) st xs) s = stockHistory st s"
proof (induction xs arbitrary: st)
  case Nil
  show ?case by simp
next
  case (Cons x xs)
  obtain s' b' where x: "x = (s', b')" by (cases x)
  from Cons.prems x have "s \<noteq> s'" and "s \<notin> fst ` set xs" by auto
  with Cons.IH [of "init_stock fmt random now st x"] x show ?case
    by (simp add: init_stock_stockHistory)
qed

lemma foldl_init_currentPrices:
  "distinct (map fst xs) \<Longrightarrow> (s, b) \<in> set xs \<Longrightarrow>
     currentPrices (foldl (init_stock fmt random now) st xs) s =
       toFixed2 (fst (seed_loop fmt (random s) (now s) b 100 b []))"
proof (induction xs arbitrary: st)
  case Nil
  then show ?case by simp
next
  case (Cons x xs)
  obtain s' b' where x: "x = (s', b')" by (cases x)
  show ?case
  proof (cases "x = (s, b)")
    case True
    with Cons.prems have "s \<notin> fst ` set xs" by auto
    with True show ?thesis
      by (simp add: foldl_init_currentPrices_other init_stock_currentPrices)
  next
    case False
    with Cons.prems have in_xs: "(s, b) \<in> set xs" and d: "distinct (map fst xs)" by auto
    from Cons.IH [OF d in_xs, of "init_stock fmt random now st x"] show ?thesis
      by simp
  qed
qed

lemma foldl_init_stockHistory:
  "distinct (map fst xs) \<Longrightarrow> (s, b) \<in> set xs \<Longrightarrow>
     stockHistory (foldl (init_stock fmt random now) st xs) s =
       snd (seed_loop fmt (random s) (now s) b 100 b [])"
proof (induction xs arbitrary: st)
  case Nil
  then show ?case by simp
next
  case (Cons x xs)
  obtain s' b' where x: "x = (s', b')" by (cases x)
  show ?case
  proof (cases "x = (s, b)")
    case True
    with Cons.prems have "s \<notin> fst ` set xs" by auto
    with True show ?thesis
      by (simp add: foldl_init_stockHistory_other init_stock_stockHistory)
  next
    case False
    with Cons.prems have in_xs: "(s, b) \<in> set xs" and d: "distinct (map fst xs)" by auto
    from Cons.IH [OF d in_xs, of "init_stock fmt random now st x"] show ?thesis
      by simp
  qed
qed

lemma init_currentPrices:
  "(s, b) \<in> set STOCK_BASE_PRICES \<Longrightarrow>
     currentPrices (init fmt random now db) s =
       toFixed2 (fst (seed_loop fmt (random s) (now s) b 100 b []))"
  unfolding init_def by (rule foldl_init_currentPrices [OF distinct_STOCK_BASE_PRICES])

lemma init_stockHistory:
  "(s, b) \<in> set STOCK_BASE_PRICES \<Longrightarrow>
     stockHistory (init fmt random now db) s =
       snd (seed_loop fmt (random s) (now s) b 100 b [])"
  unfolding init_def by (rule foldl_init_stockHistory [OF distinct_STOCK_BASE_PRICES])

lemma base_price_ge_18: "(s, b) \<in> set STOCK_BASE_PRICES \<Longrightarrow> 18 \<le> b"
  by (auto simp: STOCK_BASE_PRICES_def)

lemma init_history_length:
  "s \<in> set STOCKS \<Longrightarrow> length (stockHistory (init fmt random now db) s) = 100"
  by (elim STOCKS_entry) (simp add: init_stockHistory seed_loop_length)

text \<open>
  C6. For a catalog symbol whose warm-up draws lie in \<open>[0, 1)\<close> (a volatility within
  0.4 of zero), the price after start-up is at least 10.00, the history has exactly 100
  entries, each entry's price has two decimals, and entry \<open>k\<close> (oldest first) carries
  the rendering of the clock reading of its iteration minus \<open>(100 - k) * 3000\<close> ms: the
  offsets step from 300000 ms in the past down to 3000 ms, 3000 ms apart.
\<close>

theorem C6_seeding:
  assumes "stock \<in> set STOCKS"
    and "\<forall>i. 0 \<le> random stock i \<and> random stock i < 1"
  shows "10 \<le> currentPrices (init fmt random now db) stock \<and>
         length (stockHistory (init fmt random now db) stock) = 100 \<and>
         (\<forall>k<100.
            two_decimals (price (stockHistory (init fmt random now db) stock ! k)) \<and>
            timestamp (stockHistory (init fmt random now db) stock ! k) =
              fmt (now stock (100 - k) - int (100 - k) * 3000))"
proof -
  from assms(1) obtain b where b: "(stock, b) \<in> set STOCK_BASE_PRICES"
    by (rule STOCKS_entry)
  let ?seeded = "seed_loop fmt (random stock) (now stock) b 100 b []"
  have "\<bar>fst ?seeded - b\<bar> \<le> 8"
    by (rule seed_loop_bound [OF assms(2)]) simp
  then have "b - 8 \<le> fst ?seeded" by (simp add: abs_le_iff)
  with base_price_ge_18 [OF b] have "10 \<le> fst ?seeded" by simp
  then have "10 \<le> toFixed2 (fst ?seeded)" by (rule toFixed2_ge_10)
  then have current: "10 \<le> currentPrices (init fmt random now db) stock"
    by (simp add: init_currentPrices [OF b])
  have len: "length (stockHistory (init fmt random now db) stock) = 100"
    by (simp add: init_stockHistory [OF b] seed_loop_length)
  have entries: "\<forall>k<100.
      two_decimals (price (stockHistory (init fmt random now db) stock ! k)) \<and>
      timestamp (stockHistory (init fmt random now db) stock ! k) =
        fmt (now stock (100 - k) - int (100 - k) * 3000)"
    using seed_loop_nth [of _ 100 fmt "random stock" "now stock" b b]
    by (simp add: init_stockHistory [OF b])
  from current len entries show ?thesis by blast
qed


theorem C6_seeding_witness:
  "''GOOG'' \<in> set STOCKS \<and>
   10 \<le> currentPrices (init utc_time seed_half seed_noon one_account) ''GOOG'' \<and>
   length (stockHistory (init utc_time seed_half seed_noon one_account) ''GOOG'') = 100 \<and>
   two_decimals (price (stockHistory (init utc_time seed_half seed_noon one_account) ''GOOG'' ! 0)) \<and>
   timestamp (stockHistory (init utc_time seed_half seed_noon one_account) ''GOOG'' ! 0) =
     utc_time (43200000 - 300000) \<and>
   timestamp (stockHistory (init utc_time seed_half seed_noon one_account) ''GOOG'' ! 99) =
     utc_time (43200000 - 3000)"
proof -
  have draws: "\<forall>i. 0 \<le> seed_half ''GOOG'' i \<and> seed_half ''GOOG'' i < 1"
    by (simp add: seed_half_def)
  note seeded = C6_seeding [where stock = "''GOOG''" and random = seed_half and fmt = utc_time
      and now = seed_noon and db = one_account, OF GOOG_in_STOCKS draws]
  from seeded have entries: "\<And>k. k < 100 \<Longrightarrow>
      two_decimals (price (stockHistory (init utc_time seed_half seed_noon one_account) ''GOOG'' ! k)) \<and>
      timestamp (stockHistory (init utc_time seed_half seed_noon one_account) ''GOOG'' ! k) =
        utc_time (seed_noon ''GOOG'' (100 - k) - int (100 - k) * 3000)"
    by blast
  from entries [of 0] entries [of 99] seeded GOOG_in_STOCKS show ?thesis
    by (simp add: seed_noon_def)
qed

section \<open>The history buffer\<close>

lemma tick_stockHistory:
  assumes "(s, b) \<in> set STOCK_BASE_PRICES"
  shows "stockHistory (tick fmt random now st) s =
     (if 100 \<le> length (stockHistory st s)
      then tl (stockHistory st s @
             [\<lparr>code = Some s, price = currentPrices (tick fmt random now st) s,
               timestamp = fmt (now s)\<rparr>])
      else stockHistory st s @
             [\<lparr>code = Some s, price = currentPrices (tick fmt random now st) s,
               timestamp = fmt (now s)\<rparr>])"
  unfolding tick_currentPrices [OF assms]
  unfolding tick_def foldl_tick_stockHistory [OF distinct_STOCK_BASE_PRICES assms]
  by (simp add: tick_stock_stockHistory)

lemma tl_drop_snoc:
  assumes "n < length xs"
  shows "tl (drop n xs @ [x]) = drop (Suc n) (xs @ [x])"
proof -
  from assms have "drop n xs \<noteq> []" by simp
  then have "tl (drop n xs @ [x]) = tl (drop n xs) @ [x]" by simp
  also have "\<dots> = drop (Suc n) xs @ [x]" by (simp add: drop_Suc tl_drop)
  also have "\<dots> = drop (Suc n) (xs @ [x])" using assms by simp
  finally show ?thesis .
qed

lemma run_ticks_history:
  assumes entry: "(s, b) \<in> set STOCK_BASE_PRICES"
    and full: "length (stockHistory st s) = 100"
  shows "stockHistory (run_ticks fmt random now n st) s =
     drop n (stockHistory st s @
       map (\<lambda>k. \<lparr>code = Some s, price = currentPrices (run_ticks fmt random now (Suc k) st) s,
                  timestamp = fmt (now k s)\<rparr>) [0..<n])"
proof (induction n)
  case 0
  show ?case by simp
next
  case (Suc n)
  let ?point = "\<lambda>k. \<lparr>code = Some s, price = currentPrices (run_ticks fmt random now (Suc k) st) s,
                       timestamp = fmt (now k s)\<rparr>"
  define pushed where "pushed = stockHistory st s @ map ?point [0..<n]"
  let ?H = "stockHistory (run_ticks fmt random now n st) s"
  have H: "?H = drop n pushed" unfolding pushed_def by (rule Suc.IH)
  have n_less: "n < length pushed" using full by (simp add: pushed_def)
  have len: "length ?H = 100" unfolding H using full by (simp add: pushed_def)
  have "stockHistory (run_ticks fmt random now (Suc n) st) s = tl (?H @ [?point n])"
    using len by (simp add: tick_stockHistory [OF entry])
  also have "\<dots> = drop (Suc n) (pushed @ [?point n])"
    unfolding H by (rule tl_drop_snoc [OF n_less])
  also have "pushed @ [?point n] = stockHistory st s @ map ?point [0..<Suc n]"
    by (simp add: pushed_def)
  finally show ?case .
qed

text \<open>
  C3. After start-up and any number \<open>n\<close> of periods of the update loop, the history of
  a catalog symbol has at most 100 entries (exactly 100), and it is the seeded history
  followed by the \<open>n\<close> data points of those periods in the order they were pushed,
  without its \<open>n\<close> oldest entries.
\<close>

theorem C3_history_bounded:
  assumes "stockCode \<in> set STOCKS"
  shows "length (stockHistory (run_ticks fmt random now n
                   (init fmt seed_random seed_now db)) stockCode) \<le> 100 \<and>
         length (stockHistory (run_ticks fmt random now n
                   (init fmt seed_random seed_now db)) stockCode) = 100 \<and>
         stockHistory (run_ticks fmt random now n (init fmt seed_random seed_now db)) stockCode =
           drop n (stockHistory (init fmt seed_random seed_now db) stockCode @
             map (\<lambda>k. \<lparr>code = Some stockCode,
                        price = currentPrices (run_ticks fmt random now (Suc k)
                                  (init fmt seed_random seed_now db)) stockCode,
                        timestamp = fmt (now k stockCode)\<rparr>) [0..<n])"
proof -
  from assms obtain b where b: "(stockCode, b) \<in> set STOCK_BASE_PRICES"
    by (rule STOCKS_entry)
  have full: "length (stockHistory (init fmt seed_random seed_now db) stockCode) = 100"
    by (rule init_history_length [OF assms])
  note shape = run_ticks_history [OF b full, of fmt random now n]
  have "length (stockHistory (run_ticks fmt random now n
                  (init fmt seed_random seed_now db)) stockCode) = 100"
    unfolding shape using full by simp
  with shape show ?thesis by simp
qed

theorem C3_history_bounded_witness:
  "''GOOG'' \<in> set STOCKS \<and>
   length (stockHistory (run_ticks utc_time every_half every_noon 250
             (init utc_time seed_half seed_noon one_account)) ''GOOG'') = 100 \<and>
   stockHistory (run_ticks utc_time every_half every_noon 100
             (init utc_time seed_half seed_noon one_account)) ''GOOG'' =
     map (\<lambda>k. \<lparr>code = Some ''GOOG'',
                price = currentPrices (run_ticks utc_time every_half every_noon (Suc k)
                          (init utc_time seed_half seed_noon one_account)) ''GOOG'',
                timestamp = utc_time (every_noon k ''GOOG'')\<rparr>) [0..<100]"
proof -
  have full: "length (stockHistory (init utc_time seed_half seed_noon one_account) ''GOOG'') = 100"
    by (rule init_history_length [OF GOOG_in_STOCKS])
  from C3_history_bounded [OF GOOG_in_STOCKS, of utc_time every_half every_noon 250
      seed_half seed_noon one_account]
    C3_history_bounded [OF GOOG_in_STOCKS, of utc_time every_half every_noon 100
      seed_half seed_noon one_account] full
  show ?thesis
    by (simp add: GOOG_in_STOCKS)
qed

section \<open>The error of rounding to binary64\<close>

lemma pow2_powi: "pow2 k = 2 powi k"
  by (simp add: pow2_def power_int_def inverse_eq_divide power_one_over)

lemma pow2_pos: "0 < pow2 k"
  by (simp add: pow2_def)

lemma pow2_diff: "pow2 (a - b) = pow2 a / pow2 b"
  by (simp add: pow2_powi power_int_diff)

lemma pow2_53: "pow2 53 = 2 ^ 53"
  by (simp add: pow2_def)

lemma pow2_small: "k \<le> - 60 \<Longrightarrow> pow2 k \<le> 1 / 2 ^ 60"
proof -
  assume k: "k \<le> - 60"
  then have "(60 :: nat) \<le> nat (- k)" by simp
  then have "(2 :: rat) ^ 60 \<le> 2 ^ nat (- k)"
    by (rule power_increasing) simp
  then have "1 / (2 :: rat) ^ nat (- k) \<le> 1 / 2 ^ 60"
    by (intro divide_left_mono) simp_all
  with k show ?thesis by (simp add: pow2_def)
qed

lemma ilog2_lower:
  assumes "0 < x"
  shows "pow2 (ilog2 x) \<le> x"
proof (cases "1 \<le> x")
  case True
  let ?n = "\<lfloor>x\<rfloor>"
  from True have n: "0 < ?n" by simp
  from bitlen_bounds [OF n] have low: "2 ^ nat (bitlen ?n - 1) \<le> ?n" by simp
  from n have "1 \<le> bitlen ?n" by (simp add: bitlen_alt_def)
  with True have "pow2 (ilog2 x) = 2 ^ nat (bitlen ?n - 1)"
    by (simp add: ilog2_def pow2_def)
  also have "\<dots> = of_int (2 ^ nat (bitlen ?n - 1))" by simp
  also have "\<dots> \<le> of_int ?n" using low by (simp only: of_int_le_iff)
  also have "\<dots> \<le> x" by simp
  finally show ?thesis .
next
  case False
  let ?m = "\<lceil>1 / x\<rceil>"
  from False assms have big: "1 < 1 / x" by simp
  then have m: "0 < ?m - 1" by (simp add: less_ceiling_iff)
  let ?k = "bitlen (?m - 1)"
  from m have k: "1 \<le> ?k" by (simp add: bitlen_alt_def)
  from bitlen_bounds [OF m] have "?m - 1 < 2 ^ nat ?k" by simp
  then have "?m \<le> 2 ^ nat ?k" by simp
  then have up: "(of_int ?m :: rat) \<le> of_int (2 ^ nat ?k)" by (simp only: of_int_le_iff)
  have "1 / x \<le> of_int ?m" by (rule le_of_int_ceiling)
  also note up
  also have "(of_int (2 ^ nat ?k) :: rat) = 2 ^ nat ?k" by simp
  finally have "1 / x \<le> 2 ^ nat ?k" .
  with assms have "1 / 2 ^ nat ?k \<le> x"
    by (simp add: field_simps)
  with False k show ?thesis
    by (simp add: ilog2_def pow2_def)
qed

lemma round_even_error: "\<bar>of_int (round_even y) - y\<bar> \<le> 1 / 2"
proof -
  have "of_int \<lfloor>y\<rfloor> \<le> y" "y < of_int \<lfloor>y\<rfloor> + 1" by linarith+
  then show ?thesis
    by (auto simp: round_even_def Let_def abs_le_iff)
qed

lemma binary64_error: "\<bar>binary64 x - x\<bar> \<le> \<bar>x\<bar> / 2 ^ 53 + 1 / 2 ^ 60"
proof (cases "x = 0")
  case True
  then show ?thesis by (simp add: binary64_def)
next
  case False
  define e where "e = max (ilog2 \<bar>x\<bar>) (- 1022)"
  define ulp where "ulp = pow2 (e - 52)"
  have ulp: "0 < ulp" by (simp add: ulp_def pow2_pos)
  have b: "binary64 x = of_int (round_even (x / ulp)) * ulp"
    using False by (simp add: binary64_def Let_def e_def ulp_def)
  have "binary64 x - x = (of_int (round_even (x / ulp)) - x / ulp) * ulp"
    using ulp by (simp add: b field_simps)
  then have "\<bar>binary64 x - x\<bar> = \<bar>of_int (round_even (x / ulp)) - x / ulp\<bar> * ulp"
    using ulp by (simp add: abs_mult)
  also have "\<dots> \<le> 1 / 2 * ulp"
    using ulp round_even_error [of "x / ulp"] by (intro mult_right_mono) simp_all
  finally have err: "\<bar>binary64 x - x\<bar> \<le> ulp / 2" by simp
  have "ulp / 2 \<le> \<bar>x\<bar> / 2 ^ 53 + 1 / 2 ^ 60"
  proof (cases "- 1022 \<le> ilog2 \<bar>x\<bar>")
    case True
    then have "e = ilog2 \<bar>x\<bar>" by (simp add: e_def)
    then have "ulp / 2 = pow2 (ilog2 \<bar>x\<bar>) / 2 ^ 53"
      using pow2_diff [of "ilog2 \<bar>x\<bar>" 53] pow2_diff [of "ilog2 \<bar>x\<bar>" 52]
      by (simp add: ulp_def pow2_def)
    also have "\<dots> \<le> \<bar>x\<bar> / 2 ^ 53"
      using ilog2_lower [of "\<bar>x\<bar>"] False by (intro divide_right_mono) simp_all
    finally show ?thesis by simp
  next
    case False
    then have "e = - 1022" by (simp add: e_def)
    then have "ulp \<le> 1 / 2 ^ 60"
      unfolding ulp_def by (intro pow2_small) simp
    then have "ulp / 2 \<le> 1 / 2 ^ 60" using ulp by simp
    then show ?thesis by (simp add: add_increasing)
  qed
  with err show ?thesis by simp
qed

lemma literal_0_2: "binary64 (1 / 5) = 1 / 5 * (1 + 1 / 2 ^ 54)"
  by code_simp


lemma binary64_abs_bounds:
  "\<bar>x\<bar> - (\<bar>x\<bar> / 2 ^ 53 + 1 / 2 ^ 60) \<le> \<bar>binary64 x\<bar>"
  "\<bar>binary64 x\<bar> \<le> \<bar>x\<bar> + (\<bar>x\<bar> / 2 ^ 53 + 1 / 2 ^ 60)"
  using binary64_error [of x] by linarith+

lemma threshold_bounds:
  assumes "0 \<le> live"
  shows "live / 5 * (1 + 1 / 2 ^ 54) * (1 - 1 / 2 ^ 53) - 1 / 2 ^ 60
           \<le> binary64 (live * binary64 (1 / 5))"
    and "binary64 (live * binary64 (1 / 5))
           \<le> live / 5 * (1 + 1 / 2 ^ 54) * (1 + 1 / 2 ^ 53) + 1 / 2 ^ 60"
proof -
  define p where "p = live * binary64 (1 / 5)"
  have p: "p = live / 5 * (1 + 1 / 2 ^ 54)"
    by (simp add: p_def literal_0_2)
  with assms have "0 \<le> p" by simp
  then have abs: "\<bar>p\<bar> = p" by simp
  from binary64_error [of p] have "p - (p / 2 ^ 53 + 1 / 2 ^ 60) \<le> binary64 p"
    and "binary64 p \<le> p + (p / 2 ^ 53 + 1 / 2 ^ 60)"
    unfolding abs by linarith+
  then show "live / 5 * (1 + 1 / 2 ^ 54) * (1 - 1 / 2 ^ 53) - 1 / 2 ^ 60
           \<le> binary64 (live * binary64 (1 / 5))"
    and "binary64 (live * binary64 (1 / 5))
           \<le> live / 5 * (1 + 1 / 2 ^ 54) * (1 + 1 / 2 ^ 53) + 1 / 2 ^ 60"
    unfolding p_def [symmetric] unfolding p by (simp_all add: algebra_simps)
qed

lemma stale_binary64_above:
  assumes "1 \<le> live" and "live / 5 * (1 + 1 / 2 ^ 48) \<le> \<bar>e - live\<bar>"
  shows "stale_binary64 live (Some e)"
proof -
  define c' where "c' = binary64 live"
  define e' where "e' = binary64 e"
  define D where "D = \<bar>binary64 (e' - c')\<bar>"
  define T where "T = binary64 (c' * binary64 (1 / 5))"
  have c: "\<bar>c' - live\<bar> \<le> live / 2 ^ 53 + 1 / 2 ^ 60"
    using binary64_error [of live] assms(1) by (simp add: c'_def)
  have e: "\<bar>e' - e\<bar> \<le> \<bar>e\<bar> / 2 ^ 53 + 1 / 2 ^ 60"
    using binary64_error [of e] by (simp add: e'_def)
  from c assms(1) have "0 \<le> c'" by (simp add: abs_le_iff; linarith)
  then have T: "T \<le> c' / 5 * (1 + 1 / 2 ^ 54) * (1 + 1 / 2 ^ 53) + 1 / 2 ^ 60"
    unfolding T_def by (rule threshold_bounds(2))
  have D: "\<bar>e' - c'\<bar> - (\<bar>e' - c'\<bar> / 2 ^ 53 + 1 / 2 ^ 60) \<le> D"
    unfolding D_def by (rule binary64_abs_bounds(1))
  have size: "\<bar>e\<bar> \<le> \<bar>e - live\<bar> + live"
    using assms(1) by linarith
  have gap: "\<bar>e - live\<bar> - (\<bar>e' - e\<bar> + \<bar>c' - live\<bar>) \<le> \<bar>e' - c'\<bar>"
    by linarith
  define a where "a = \<bar>e - live\<bar>"
  define m where "m = \<bar>e' - c'\<bar>"
  define x where "x = \<bar>e' - e\<bar>"
  define y where "y = \<bar>c' - live\<bar>"
  define z where "z = \<bar>e\<bar>"
  have up: "c' \<le> live + y" unfolding y_def by linarith
  note facts = assms(1) assms(2) [folded a_def] c [folded y_def] e [folded x_def z_def]
    T D [folded m_def] size [folded a_def z_def] gap [folded a_def m_def x_def y_def] up
  have "T < D"
    using facts by (simp add: algebra_simps; linarith)
  then show ?thesis
    by (simp add: stale_binary64_def D_def T_def c'_def e'_def)
qed

lemma stale_binary64_below:
  assumes "1 \<le> live" and "\<bar>e - live\<bar> \<le> live / 5 * (1 - 1 / 2 ^ 48)"
  shows "\<not> stale_binary64 live (Some e)"
proof -
  define c' where "c' = binary64 live"
  define e' where "e' = binary64 e"
  define D where "D = \<bar>binary64 (e' - c')\<bar>"
  define T where "T = binary64 (c' * binary64 (1 / 5))"
  have c: "\<bar>c' - live\<bar> \<le> live / 2 ^ 53 + 1 / 2 ^ 60"
    using binary64_error [of live] assms(1) by (simp add: c'_def)
  have e: "\<bar>e' - e\<bar> \<le> \<bar>e\<bar> / 2 ^ 53 + 1 / 2 ^ 60"
    using binary64_error [of e] by (simp add: e'_def)
  from c assms(1) have "0 \<le> c'" by (simp add: abs_le_iff; linarith)
  then have T: "c' / 5 * (1 + 1 / 2 ^ 54) * (1 - 1 / 2 ^ 53) - 1 / 2 ^ 60 \<le> T"
    unfolding T_def by (rule threshold_bounds(1))
  have D: "D \<le> \<bar>e' - c'\<bar> + (\<bar>e' - c'\<bar> / 2 ^ 53 + 1 / 2 ^ 60)"
    unfolding D_def by (rule binary64_abs_bounds(2))
  have low: "live - \<bar>e - live\<bar> \<le> e" and high: "e \<le> live + \<bar>e - live\<bar>"
    by linarith+
  have gap: "\<bar>e' - c'\<bar> \<le> \<bar>e - live\<bar> + (\<bar>e' - e\<bar> + \<bar>c' - live\<bar>)"
    by linarith
  define a where "a = \<bar>e - live\<bar>"
  define m where "m = \<bar>e' - c'\<bar>"
  define x where "x = \<bar>e' - e\<bar>"
  define y where "y = \<bar>c' - live\<bar>"
  have a0: "0 \<le> a" by (simp add: a_def)
  from assms have pos: "0 < e"
    using low by (simp add: algebra_simps; linarith)
  then have z: "\<bar>e\<bar> = e" by simp
  have down: "live - y \<le> c'" unfolding y_def by linarith
  have near: "e - x \<le> e'" unfolding x_def by linarith
  note facts = assms(1) assms(2) [folded a_def] c [folded y_def] e [unfolded z, folded x_def]
    T D [folded m_def] low [folded a_def] high [folded a_def]
    gap [folded a_def m_def x_def y_def] down a0
  have "D \<le> T"
    using facts by (simp add: algebra_simps; linarith)
  moreover have "0 < e'"
    using facts pos near by (simp add: algebra_simps; linarith)
  ultimately show ?thesis
    by (simp add: stale_binary64_def D_def T_def c'_def e'_def)
qed

section \<open>Delivery of a tick\<close>

lemma tick_outbox:
  "outbox (tick fmt random now st) =
     outbox st @
       concat (map (\<lambda>(s, b). map (\<lambda>c. (c, PriceUpdate
                 \<lparr>code = Some s, price = advance b (currentPrices st s) (random s),
                  timestamp = fmt (now s)\<rparr>)) (rooms st s)) STOCK_BASE_PRICES)"
  unfolding tick_def by (rule foldl_tick_outbox [OF distinct_STOCK_BASE_PRICES])

lemma tick_outbox_groups:
  "outbox (tick fmt random now st) =
     outbox st @
       concat (map (\<lambda>s. map (\<lambda>c. (c, PriceUpdate
                 \<lparr>code = Some s, price = currentPrices (tick fmt random now st) s,
                  timestamp = fmt (now s)\<rparr>)) (rooms st s)) STOCKS)"
proof -
  have "map (\<lambda>s. map (\<lambda>c. (c, PriceUpdate
                 \<lparr>code = Some s, price = currentPrices (tick fmt random now st) s,
                  timestamp = fmt (now s)\<rparr>)) (rooms st s)) STOCKS =
        map (\<lambda>(s, b). map (\<lambda>c. (c, PriceUpdate
                 \<lparr>code = Some s, price = advance b (currentPrices st s) (random s),
                  timestamp = fmt (now s)\<rparr>)) (rooms st s)) STOCK_BASE_PRICES"
    unfolding STOCKS_def map_map
    by (rule map_cong) (auto simp: tick_currentPrices)
  then show ?thesis
    by (simp add: tick_outbox)
qed

lemma concat_single_group:
  assumes "g \<in> set xs" and "distinct xs" and "\<forall>s. s \<noteq> g \<longrightarrow> f s = []"
  shows "concat (map f xs) = f g"
  using assms
proof (induction xs)
  case Nil
  then show ?case by simp
next
  case (Cons x xs)
  show ?case
  proof (cases "x = g")
    case True
    with Cons.prems have "\<forall>y\<in>set xs. f y = []" by auto
    then have "concat (map f xs) = []" by simp
    with True show ?thesis by simp
  next
    case False
    with Cons show ?thesis by simp
  qed
qed

lemma distinct_STOCKS: "distinct STOCKS"
  unfolding STOCKS_def by (rule distinct_STOCK_BASE_PRICES)

lemma length_STOCKS: "length STOCKS = 5"
  by (simp add: STOCKS_def STOCK_BASE_PRICES_def)

lemma tick_delivered_to:
  assumes "\<forall>s. c \<notin> set (rooms st s)"
  shows "delivered_to c (tick fmt random now st) = delivered_to c st"
proof -
  have "filter (\<lambda>e. fst e = c)
          (concat (map (\<lambda>s. map (\<lambda>c'. (c', PriceUpdate
                    \<lparr>code = Some s, price = currentPrices (tick fmt random now st) s,
                     timestamp = fmt (now s)\<rparr>)) (rooms st s)) xs)) = []" for xs
    using assms by (induction xs) (auto simp: filter_empty_conv)
  then show ?thesis
    by (simp add: delivered_to_def tick_outbox_groups)
qed

lemma tick_single_member:
  assumes "g \<in> set STOCKS" and "rooms st g = [c]" and "\<forall>s. s \<noteq> g \<longrightarrow> rooms st s = []"
  shows "outbox (tick fmt random now st) =
           outbox st @
             [(c, PriceUpdate \<lparr>code = Some g, price = currentPrices (tick fmt random now st) g,
                               timestamp = fmt (now g)\<rparr>)]"
proof -
  let ?f = "\<lambda>s. map (\<lambda>c. (c, PriceUpdate
                 \<lparr>code = Some s, price = currentPrices (tick fmt random now st) s,
                  timestamp = fmt (now s)\<rparr>)) (rooms st s)"
  from assms(3) have "\<forall>s. s \<noteq> g \<longrightarrow> ?f s = []" by simp
  with assms(1) distinct_STOCKS have "concat (map ?f STOCKS) = ?f g"
    by (rule concat_single_group)
  then show ?thesis
    using assms(2) by (simp add: tick_outbox_groups)
qed

text \<open>
  C8, amended. In one period over the catalog of 5 symbols, the tick of each symbol is
  delivered to exactly the connections in that symbol's room, symbol after symbol in
  catalog order and member after member in joining order, whatever the rooms hold. So
  when one connection \<open>c\<close> is the only member of the room of one catalog symbol \<open>g\<close>
  and every other room is empty, exactly one event is delivered in the period, the
  \<^verbatim>\<open>priceUpdate\<close> of \<open>g\<close> to \<open>c\<close>; and a connection that is in no room receives
  nothing.
\<close>

theorem C8_tick_delivery:
  "outbox (tick fmt random now st) =
     outbox st @
       concat (map (\<lambda>s. map (\<lambda>c. (c, PriceUpdate
                 \<lparr>code = Some s, price = currentPrices (tick fmt random now st) s,
                  timestamp = fmt (now s)\<rparr>)) (rooms st s)) STOCKS) \<and>
   length STOCKS = 5 \<and>
   (g \<in> set STOCKS \<and> rooms st g = [c] \<and> (\<forall>s. s \<noteq> g \<longrightarrow> rooms st s = []) \<longrightarrow>
      outbox (tick fmt random now st) =
        outbox st @
          [(c, PriceUpdate \<lparr>code = Some g, price = currentPrices (tick fmt random now st) g,
                            timestamp = fmt (now g)\<rparr>)] \<and>
      length (priceUpdates (tick fmt random now st)) = length (priceUpdates st) + 1) \<and>
   ((\<forall>s. c' \<notin> set (rooms st s)) \<longrightarrow>
      delivered_to c' (tick fmt random now st) = delivered_to c' st)"
proof -
  have single: "length (priceUpdates (tick fmt random now st)) = length (priceUpdates st) + 1"
    if "g \<in> set STOCKS" "rooms st g = [c]" "\<forall>s. s \<noteq> g \<longrightarrow> rooms st s = []"
    by (simp add: priceUpdates_def tick_single_member [OF that])
  show ?thesis
    using tick_outbox_groups [of fmt random now st] length_STOCKS single
      tick_single_member [of g st c fmt random now] tick_delivered_to [of c' st fmt random now]
    by blast
qed

lemma one_member_rooms:
  "rooms one_member ''GOOG'' = [7]" "\<forall>s. s \<noteq> ''GOOG'' \<longrightarrow> rooms one_member s = []"
  by (simp_all add: one_member_def)

lemma three_rooms_rooms:
  "map (rooms three_rooms) STOCKS = [[7, 8], [8], [], [], [9]]"
  "\<forall>s. 5 \<notin> set (rooms three_rooms s)"
  "outbox three_rooms = []"
  by (simp_all add: three_rooms_def STOCKS_def STOCK_BASE_PRICES_def)

theorem C8_tick_delivery_witness:
  "outbox (tick utc_time half noon three_rooms) =
     [(7, PriceUpdate \<lparr>code = Some ''GOOG'',
                       price = currentPrices (tick utc_time half noon three_rooms) ''GOOG'',
                       timestamp = utc_time (noon ''GOOG'')\<rparr>),
      (8, PriceUpdate \<lparr>code = Some ''GOOG'',
                       price = currentPrices (tick utc_time half noon three_rooms) ''GOOG'',
                       timestamp = utc_time (noon ''GOOG'')\<rparr>),
      (8, PriceUpdate \<lparr>code = Some ''TSLA'',
                       price = currentPrices (tick utc_time half noon three_rooms) ''TSLA'',
                       timestamp = utc_time (noon ''TSLA'')\<rparr>),
      (9, PriceUpdate \<lparr>code = Some ''NVDA'',
                       price = currentPrices (tick utc_time half noon three_rooms) ''NVDA'',
                       timestamp = utc_time (noon ''NVDA'')\<rparr>)] \<and>
   delivered_to 5 (tick utc_time half noon three_rooms) = [] \<and>
   ''GOOG'' \<in> set STOCKS \<and> rooms one_member ''GOOG'' = [7] \<and>
   outbox (tick utc_time half noon one_member) =
     [(7, PriceUpdate \<lparr>code = Some ''GOOG'',
                       price = currentPrices (tick utc_time half noon one_member) ''GOOG'',
                       timestamp = utc_time (noon ''GOOG'')\<rparr>)] \<and>
   length (priceUpdates (tick utc_time half noon one_member)) = 1"
proof -
  note three = C8_tick_delivery [of utc_time half noon three_rooms "''GOOG''" 7 5]
  note one = C8_tick_delivery [of utc_time half noon one_member "''GOOG''" 7 5]
  have empty: "outbox one_member = []" "priceUpdates one_member = []"
    by (simp_all add: one_member_def priceUpdates_def)
  from three have groups: "outbox (tick utc_time half noon three_rooms) =
      outbox three_rooms @
        concat (map (\<lambda>s. map (\<lambda>c. (c, PriceUpdate
                  \<lparr>code = Some s, price = currentPrices (tick utc_time half noon three_rooms) s,
                   timestamp = utc_time (noon s)\<rparr>)) (rooms three_rooms s)) STOCKS)"
    by blast
  have many: "outbox (tick utc_time half noon three_rooms) =
     [(7, PriceUpdate \<lparr>code = Some ''GOOG'',
                       price = currentPrices (tick utc_time half noon three_rooms) ''GOOG'',
                       timestamp = utc_time (noon ''GOOG'')\<rparr>),
      (8, PriceUpdate \<lparr>code = Some ''GOOG'',
                       price = currentPrices (tick utc_time half noon three_rooms) ''GOOG'',
                       timestamp = utc_time (noon ''GOOG'')\<rparr>),
      (8, PriceUpdate \<lparr>code = Some ''TSLA'',
                       price = currentPrices (tick utc_time half noon three_rooms) ''TSLA'',
                       timestamp = utc_time (noon ''TSLA'')\<rparr>),
      (9, PriceUpdate \<lparr>code = Some ''NVDA'',
                       price = currentPrices (tick utc_time half noon three_rooms) ''NVDA'',
                       timestamp = utc_time (noon ''NVDA'')\<rparr>)]"
    unfolding groups using three_rooms_rooms(1)
    by (simp add: three_rooms_rooms(3) STOCKS_def STOCK_BASE_PRICES_def)
  from three three_rooms_rooms(2)
  have "delivered_to 5 (tick utc_time half noon three_rooms) = delivered_to 5 three_rooms"
    by blast
  then have none: "delivered_to 5 (tick utc_time half noon three_rooms) = []"
    by (simp add: delivered_to_def three_rooms_rooms(3))
  from one GOOG_in_STOCKS one_member_rooms
  have single: "outbox (tick utc_time half noon one_member) =
      outbox one_member @
        [(7, PriceUpdate \<lparr>code = Some ''GOOG'',
                          price = currentPrices (tick utc_time half noon one_member) ''GOOG'',
                          timestamp = utc_time (noon ''GOOG'')\<rparr>)]"
    and count: "length (priceUpdates (tick utc_time half noon one_member)) =
      length (priceUpdates one_member) + 1"
    by blast+
  from many none single count show ?thesis
    by (simp add: empty GOOG_in_STOCKS one_member_rooms)
qed

text \<open>
  With connection \<open>7\<close> alone in the room of GOOG and all other rooms empty, one
  period delivers one \<^verbatim>\<open>priceUpdate\<close>, not five.
\<close>

theorem C8_five_deliveries_counterexample:
  "length STOCKS = 5 \<and> rooms one_member ''GOOG'' = [7] \<and> rooms one_member ''TSLA'' = [] \<and>
   rooms one_member ''AMZN'' = [] \<and> rooms one_member ''META'' = [] \<and>
   rooms one_member ''NVDA'' = [] \<and> priceUpdates one_member = [] \<and>
   length (priceUpdates (tick utc_time half noon one_member)) = 1 \<and>
   length (priceUpdates (tick utc_time half noon one_member)) \<noteq> 5"
proof -
  have "outbox (tick utc_time half noon one_member) =
      outbox one_member @
      [(7, PriceUpdate \<lparr>code = Some ''GOOG'',
                        price = currentPrices (tick utc_time half noon one_member) ''GOOG'',
                        timestamp = utc_time (noon ''GOOG'')\<rparr>)]"
    by (rule tick_single_member [OF GOOG_in_STOCKS one_member_rooms])
  then have "length (priceUpdates (tick utc_time half noon one_member)) = 1"
    by (simp add: priceUpdates_def one_member_def)
  then show ?thesis
    by (simp add: length_STOCKS one_member_def priceUpdates_def)
qed

section \<open>Reconciliation on login\<close>

lemma empty_not_in_STOCKS: "[] \<notin> set STOCKS"
  by (simp add: STOCKS_def STOCK_BASE_PRICES_def)

lemma reconcile_stale_binary64:
  "Some (reconcile live entry) = (if stale_binary64 live entry then Some live else entry)"
proof -
  have "(20 :: rat) / 100 = 1 / 5" by simp
  then show ?thesis
    by (cases entry) (simp_all add: reconcile_def stale_binary64_def)
qed

lemma cleanSubs_loop_map:
  "cleanSubs_loop prices subs acc =
     acc @ map (\<lambda>sub. \<lparr>symbol = symbol sub,
                        entryPrice = Some (reconcile (prices (the (symbol sub)))
                                             (entryPrice sub))\<rparr>)
             (filter (\<lambda>sub. symbol sub \<in> Some ` set STOCKS) subs)"
proof (induction subs arbitrary: acc)
  case Nil
  show ?case by simp
next
  case (Cons sub subs)
  show ?case
  proof (cases "symbol sub")
    case None
    then show ?thesis by (simp add: Cons.IH image_iff)
  next
    case (Some s)
    show ?thesis
    proof (cases "s \<in> set STOCKS")
      case True
      with empty_not_in_STOCKS have "s \<noteq> []" by auto
      with True Some show ?thesis
        by (simp add: Cons.IH parseFloat_def)
    next
      case False
      with Some show ?thesis by (simp add: Cons.IH image_iff)
    qed
  qed
qed

text \<open>
  C1, amended. The cleaned list holds, in stored order, one entry for each stored
  subscription whose symbol is in the catalog and none for any other; the entry keeps
  the symbol, and its entry price is the live price exactly when the stored one is
  missing, zero, or such that the difference from the live price, rounded to binary64,
  is more than 20% of the live price, rounded to binary64; otherwise it is the stored
  value. For a live price of at least 1 the rounded test is the exact one away from the
  threshold: it holds when the difference is at least 20% of the live price times
  \<open>1 + 1/2^48\<close>, and fails when the difference is at most 20% of the live price
  times \<open>1 - 1/2^48\<close>.
\<close>

theorem C1_reconciliation:
  "cleanSubs prices subs =
     map (\<lambda>sub. \<lparr>symbol = symbol sub,
                  entryPrice =
                    (if stale_binary64 (prices (the (symbol sub))) (entryPrice sub)
                     then Some (prices (the (symbol sub)))
                     else entryPrice sub)\<rparr>)
       (filter (\<lambda>sub. symbol sub \<in> Some ` set STOCKS) subs) \<and>
   (1 \<le> live \<and> live / 5 * (1 + 1 / 2 ^ 48) \<le> \<bar>e - live\<bar> \<longrightarrow>
      stale_binary64 live (Some e)) \<and>
   (1 \<le> live \<and> \<bar>e - live\<bar> \<le> live / 5 * (1 - 1 / 2 ^ 48) \<longrightarrow>
      \<not> stale_binary64 live (Some e))"
proof -
  have "cleanSubs prices subs =
     map (\<lambda>sub. \<lparr>symbol = symbol sub,
                  entryPrice =
                    (if stale_binary64 (prices (the (symbol sub))) (entryPrice sub)
                     then Some (prices (the (symbol sub)))
                     else entryPrice sub)\<rparr>)
       (filter (\<lambda>sub. symbol sub \<in> Some ` set STOCKS) subs)"
    by (simp add: cleanSubs_def cleanSubs_loop_map reconcile_stale_binary64)
  then show ?thesis
    using stale_binary64_above [of live e] stale_binary64_below [of live e] by blast
qed

theorem C1_reconciliation_witness:
  "cleanSubs flat stored =
     [\<lparr>symbol = Some ''GOOG'', entryPrice = Some 100\<rparr>,
      \<lparr>symbol = Some ''TSLA'', entryPrice = Some 110\<rparr>,
      \<lparr>symbol = Some ''AMZN'', entryPrice = Some 100\<rparr>,
      \<lparr>symbol = Some ''META'', entryPrice = Some 100\<rparr>,
      \<lparr>symbol = Some ''NVDA'', entryPrice = Some 80\<rparr>] \<and>
   stale_binary64 100 (Some 121) \<and> \<not> stale_binary64 100 (Some 110)"
proof -
  note far = C1_reconciliation [of flat stored 100 121]
  note near = C1_reconciliation [of flat stored 100 110]
  have "map (\<lambda>sub. \<lparr>symbol = symbol sub,
                  entryPrice =
                    (if stale_binary64 (flat (the (symbol sub))) (entryPrice sub)
                     then Some (flat (the (symbol sub)))
                     else entryPrice sub)\<rparr>)
       (filter (\<lambda>sub. symbol sub \<in> Some ` set STOCKS) stored) =
     [\<lparr>symbol = Some ''GOOG'', entryPrice = Some 100\<rparr>,
      \<lparr>symbol = Some ''TSLA'', entryPrice = Some 110\<rparr>,
      \<lparr>symbol = Some ''AMZN'', entryPrice = Some 100\<rparr>,
      \<lparr>symbol = Some ''META'', entryPrice = Some 100\<rparr>,
      \<lparr>symbol = Some ''NVDA'', entryPrice = Some 80\<rparr>]"
    by code_simp
  then have cleaned: "cleanSubs flat stored =
     [\<lparr>symbol = Some ''GOOG'', entryPrice = Some 100\<rparr>,
      \<lparr>symbol = Some ''TSLA'', entryPrice = Some 110\<rparr>,
      \<lparr>symbol = Some ''AMZN'', entryPrice = Some 100\<rparr>,
      \<lparr>symbol = Some ''META'', entryPrice = Some 100\<rparr>,
      \<lparr>symbol = Some ''NVDA'', entryPrice = Some 80\<rparr>]"
    by (simp only: far [THEN conjunct1])
  have "(1 :: rat) \<le> 100 \<and> 100 / 5 * (1 + 1 / 2 ^ 48) \<le> \<bar>(121 :: rat) - 100\<bar>"
    by simp
  with far have replaced: "stale_binary64 100 (Some 121)" by blast
  have "(1 :: rat) \<le> 100 \<and> \<bar>(110 :: rat) - 100\<bar> \<le> 100 / 5 * (1 - 1 / 2 ^ 48)"
    by simp
  with near have kept: "\<not> stale_binary64 100 (Some 110)" by blast
  from cleaned replaced kept show ?thesis by blast
qed

text \<open>
  The exact rule and the code part at the threshold, in both directions. With the live
  price \<^verbatim>\<open>"192.15"\<close> and the stored number nearest to 230.58, the stored number is
  more than 20% of the live price away from it, from the decimal and from the number
  parsed alike, and is kept, whether the store names it by its exact value or by the
  decimal. With the live price \<^verbatim>\<open>"177.00"\<close> and the stored number nearest to
  212.4, the decimals 212.4 and 177 are exactly 20% of 177 apart, and the stored number
  is replaced.
\<close>

theorem C1_exact_threshold_counterexample:
  "stale (3843 / 20) (Some (binary64 (11529 / 50))) \<and>
   stale (binary64 (3843 / 20)) (Some (binary64 (11529 / 50))) \<and>
   cleanSubs at_192_15 [\<lparr>symbol = Some ''GOOG'', entryPrice = Some (binary64 (11529 / 50))\<rparr>] =
     [\<lparr>symbol = Some ''GOOG'', entryPrice = Some (binary64 (11529 / 50))\<rparr>] \<and>
   cleanSubs at_192_15 [\<lparr>symbol = Some ''GOOG'', entryPrice = Some (11529 / 50)\<rparr>] =
     [\<lparr>symbol = Some ''GOOG'', entryPrice = Some (11529 / 50)\<rparr>] \<and>
   binary64 (11529 / 50) \<noteq> 3843 / 20 \<and>
   \<not> stale 177 (Some (1062 / 5)) \<and>
   cleanSubs at_177 [\<lparr>symbol = Some ''GOOG'', entryPrice = Some (1062 / 5)\<rparr>] =
     [\<lparr>symbol = Some ''GOOG'', entryPrice = Some 177\<rparr>] \<and>
   (1062 :: rat) / 5 \<noteq> 177"
  by code_simp

section \<open>Login leaves the collection alone\<close>

lemma restore_rooms_users: "users (restore_rooms c subs st) = users st"
  by (induction c subs st rule: restore_rooms.induct)
     (simp_all add: socket_join_def socket_emit_def Let_def split: option.splits)

lemma restore_rooms_currentPrices:
  "currentPrices (restore_rooms c subs st) = currentPrices st"
  by (induction c subs st rule: restore_rooms.induct)
     (simp_all add: socket_join_def socket_emit_def Let_def split: option.splits)

lemma login_users: "users (login db_ok compare c em pw st) = users st"
  by (simp add: login_def findOne_def socket_emit_def restore_rooms_users Let_def
      split: option.splits)

lemma login_currentPrices: "currentPrices (login db_ok compare c em pw st) = currentPrices st"
  by (simp add: login_def findOne_def socket_emit_def restore_rooms_currentPrices Let_def
      split: option.splits)

lemma login_success_event:
  assumes "users st em = Some u" and "compare pw (password u)"
  shows "last (outbox (login True compare c em pw st)) =
     (c, LoginSuccess (name u) (email u) (cleanSubs (currentPrices st) (subscriptions u)) STOCKS)"
  using assms by (simp add: login_def findOne_def socket_emit_def Let_def)

text \<open>
  C9. Login writes nothing to the User collection, whatever its outcome: the
  collection after it is the collection before it. It does not change the prices
  either, so for every account the list a login cleans next is the list it cleaned
  this time: a stale stored entry price stays stored and is corrected again.
\<close>

theorem C9_login_no_write_back:
  "users (login db_ok compare c em pw st) = users st \<and>
   map_option (\<lambda>u. cleanSubs (currentPrices (login db_ok compare c em pw st)) (subscriptions u))
     (users (login db_ok compare c em pw st) em') =
   map_option (\<lambda>u. cleanSubs (currentPrices st) (subscriptions u)) (users st em')"
  by (simp add: login_users login_currentPrices)

lemma one_member_ann: "users one_member ''ann@example.org'' = Some ann"
  by (simp add: one_member_def one_account_def)

theorem C9_login_no_write_back_witness:
  "users (login True accept 7 ''ann@example.org'' ''secret'' one_member)
     ''ann@example.org'' = Some ann \<and>
   subscriptions ann =
     [\<lparr>symbol = Some ''GOOG'', entryPrice = Some 1\<rparr>,
      \<lparr>symbol = Some ''DOGE'', entryPrice = Some 5\<rparr>] \<and>
   last (outbox (login True accept 7 ''ann@example.org'' ''secret'' one_member)) =
     (7, LoginSuccess ''Ann'' ''ann@example.org''
           [\<lparr>symbol = Some ''GOOG'', entryPrice = Some 100\<rparr>] STOCKS) \<and>
   last (outbox (login True accept 7 ''ann@example.org'' ''secret''
                  (login True accept 7 ''ann@example.org'' ''secret'' one_member))) =
     (7, LoginSuccess ''Ann'' ''ann@example.org''
           [\<lparr>symbol = Some ''GOOG'', entryPrice = Some 100\<rparr>] STOCKS)"
proof -
  note kept = C9_login_no_write_back [of True accept 7 "''ann@example.org''" "''secret''"
      one_member "''ann@example.org''"]
  from kept have again: "users (login True accept 7 ''ann@example.org'' ''secret'' one_member)
      ''ann@example.org'' = Some ann"
    by (simp add: one_member_ann)
  have ok: "accept ''secret'' (password ann)" by (simp add: accept_def)
  have clean: "cleanSubs (currentPrices one_member) (subscriptions ann) =
      [\<lparr>symbol = Some ''GOOG'', entryPrice = Some 100\<rparr>]"
    by code_simp
  have who: "name ann = ''Ann''" "email ann = ''ann@example.org''"
    by (simp_all add: ann_def)
  have first: "last (outbox (login True accept 7 ''ann@example.org'' ''secret'' one_member)) =
     (7, LoginSuccess ''Ann'' ''ann@example.org''
           [\<lparr>symbol = Some ''GOOG'', entryPrice = Some 100\<rparr>] STOCKS)"
    by (simp add: login_success_event [where compare = accept and pw = "''secret''", OF one_member_ann ok] clean who)
  have second: "last (outbox (login True accept 7 ''ann@example.org'' ''secret''
                  (login True accept 7 ''ann@example.org'' ''secret'' one_member))) =
     (7, LoginSuccess ''Ann'' ''ann@example.org''
           [\<lparr>symbol = Some ''GOOG'', entryPrice = Some 100\<rparr>] STOCKS)"
    by (simp add: login_success_event [where compare = accept and pw = "''secret''", OF again ok] login_currentPrices clean who)
  from again first second show ?thesis
    by (simp add: ann_def)
qed

section \<open>Subscribe and unsubscribe\<close>

lemma truthy_Some: "truthy (Some e) = (e \<noteq> [])"
  by (simp add: truthy_def)



text \<open>The handler run without interruption, written out.\<close>

lemma subscribe_uninterrupted:
  "subscribe ok1 ok2 c stockCode st =
     (if \<not> truthy (userEmail st c) then
        socket_emit c (AuthError ''Session expired. Relogin.'') st
      else if stockCode \<notin> set STOCKS then st
      else
        (let em = (case userEmail st c of Some e \<Rightarrow> e | None \<Rightarrow> []);
             st1 = socket_join c stockCode st;
             priceNow = parseFloat (currentPrices st1 stockCode);
             st2 = (case updateOne ok1 (pull_subscription em stockCode) (users st1) of
                      Inl err \<Rightarrow> st1
                    | Inr db1 \<Rightarrow>
                        (case updateOne ok2
                                (push_subscription em
                                   \<lparr>symbol = Some stockCode, entryPrice = Some priceNow\<rparr>) db1 of
                           Inl err \<Rightarrow> st1\<lparr>users := db1\<rparr>
                         | Inr db2 \<Rightarrow> st1\<lparr>users := db2\<rparr>))
         in socket_emit c (LoadHistory stockCode (stockHistory st2 stockCode)) st2))"
  by (simp add: subscribe_def subscribe_start_def updateOne_def socket_join_def socket_emit_def
      Let_def)









lemma one_member_bound: "userEmail one_member 7 = Some ''ann@example.org''"
  by (simp add: one_member_def)



text \<open>
  C5. On a connection that is not bound to an account, subscribe delivers one
  \<^verbatim>\<open>authError\<close> to the caller and changes nothing else: rooms, the User collection
  and every other part of the state stay as they were, for any symbol.
\<close>

theorem C5_subscribe_unauthenticated:
  assumes "userEmail st c = None"
  shows "subscribe ok1 ok2 c stockCode st =
           st\<lparr>outbox := outbox st @ [(c, AuthError ''Session expired. Relogin.'')]\<rparr> \<and>
         rooms (subscribe ok1 ok2 c stockCode st) = rooms st \<and>
         users (subscribe ok1 ok2 c stockCode st) = users st"
  using assms by (simp add: subscribe_uninterrupted truthy_def socket_emit_def)

theorem C5_subscribe_unauthenticated_witness:
  "userEmail anonymous 3 = None \<and>
   outbox (subscribe True True 3 ''GOOG'' anonymous) =
     [(3, AuthError ''Session expired. Relogin.'')] \<and>
   rooms (subscribe True True 3 ''GOOG'' anonymous) = rooms anonymous \<and>
   users (subscribe True True 3 ''GOOG'' anonymous) = users anonymous"
proof -
  have none: "userEmail anonymous 3 = None" by (simp add: anonymous_def)
  from C5_subscribe_unauthenticated [OF none, of True True "''GOOG''"] none show ?thesis
    by (simp add: anonymous_def)
qed

text \<open>
  C7. On a connection bound to an account and for a catalog symbol, whatever the
  outcome of the two database writes, subscribe returns with the connection in the
  symbol's room and with one more delivery, the symbol's history to the caller; prices,
  histories and bindings are untouched. When the first write fails the collection is
  unchanged.
\<close>

theorem C7_subscribe_persistence_failure:
  assumes "truthy (userEmail st c)" and "stockCode \<in> set STOCKS"
  shows "c \<in> set (rooms (subscribe ok1 ok2 c stockCode st) stockCode) \<and>
         outbox (subscribe ok1 ok2 c stockCode st) =
           outbox st @ [(c, LoadHistory stockCode (stockHistory st stockCode))] \<and>
         currentPrices (subscribe ok1 ok2 c stockCode st) = currentPrices st \<and>
         stockHistory (subscribe ok1 ok2 c stockCode st) = stockHistory st \<and>
         userEmail (subscribe ok1 ok2 c stockCode st) = userEmail st \<and>
         (\<not> ok1 \<longrightarrow> users (subscribe ok1 ok2 c stockCode st) = users st)"
  using assms
  by (simp add: subscribe_uninterrupted socket_emit_def socket_join_def updateOne_def Let_def)

theorem C7_subscribe_persistence_failure_witness:
  "truthy (userEmail one_member 7) \<and> ''TSLA'' \<in> set STOCKS \<and>
   rooms (subscribe False True 7 ''TSLA'' one_member) ''TSLA'' = [7] \<and>
   outbox (subscribe False True 7 ''TSLA'' one_member) = [(7, LoadHistory ''TSLA'' [])] \<and>
   users (subscribe False True 7 ''TSLA'' one_member) = users one_member \<and>
   7 \<in> set (rooms (subscribe True False 7 ''TSLA'' one_member) ''TSLA'') \<and>
   outbox (subscribe True False 7 ''TSLA'' one_member) = [(7, LoadHistory ''TSLA'' [])]"
proof -
  have bound: "truthy (userEmail one_member 7)"
    by (simp add: one_member_def truthy_def)
  have tsla: "''TSLA'' \<in> set STOCKS"
    by (simp add: STOCKS_def STOCK_BASE_PRICES_def)
  have rooms: "rooms (subscribe False True 7 ''TSLA'' one_member) ''TSLA'' = [7]"
    using bound tsla
    by (simp add: subscribe_uninterrupted socket_emit_def socket_join_def updateOne_def
        one_member_def)
  from C7_subscribe_persistence_failure [OF bound tsla, of False True]
    C7_subscribe_persistence_failure [OF bound tsla, of True False] bound tsla rooms
  show ?thesis
    by (simp add: one_member_def)
qed

text \<open>
  C10. On a connection bound to an account, unsubscribe takes any symbol string, in
  the catalog or not: the connection is removed from the room of that name (nothing
  changes if it was not a member), the removal of the account's subscriptions for that
  symbol is applied to the collection when the database answers, and nothing is
  delivered to the caller, whether the write succeeds or fails.
\<close>

theorem C10_unsubscribe_unchecked:
  assumes "userEmail st c = Some em" and "em \<noteq> []"
  shows "rooms (unsubscribe ok c stockCode st) =
           (rooms st)(stockCode := removeAll c (rooms st stockCode)) \<and>
         c \<notin> set (rooms (unsubscribe ok c stockCode st) stockCode) \<and>
         (c \<notin> set (rooms st stockCode) \<longrightarrow> rooms (unsubscribe ok c stockCode st) = rooms st) \<and>
         users (unsubscribe ok c stockCode st) =
           (if ok then pull_subscription em stockCode (users st) else users st) \<and>
         outbox (unsubscribe ok c stockCode st) = outbox st"
  using assms
  by (simp add: unsubscribe_def truthy_def socket_leave_def updateOne_def Let_def)

theorem C10_unsubscribe_unchecked_witness:
  "userEmail one_member 7 = Some ''ann@example.org'' \<and> ''DOGE'' \<notin> set STOCKS \<and>
   rooms (unsubscribe True 7 ''DOGE'' one_member) ''DOGE'' = [] \<and>
   rooms (unsubscribe True 7 ''DOGE'' one_member) ''GOOG'' = [7] \<and>
   map_option subscriptions (users (unsubscribe True 7 ''DOGE'' one_member) ''ann@example.org'') =
     Some [\<lparr>symbol = Some ''GOOG'', entryPrice = Some 1\<rparr>] \<and>
   outbox (unsubscribe True 7 ''DOGE'' one_member) = []"
proof -
  have "''ann@example.org'' \<noteq> []" by simp
  from C10_unsubscribe_unchecked [OF one_member_bound this, of True "''DOGE''"]
  show ?thesis
    by (simp add: one_member_bound STOCKS_def STOCK_BASE_PRICES_def)
       (simp add: one_member_def one_account_def ann_def pull_subscription_def)
qed

end
